theory Spec2Isabelle
  imports Complex_Main "HOL-Library.Word"
begin

unbundle bit_operations_syntax

section \<open>Single-precision arithmetic\<close>

text \<open>
  The driver computes with the C++ type \<open>float\<close>, IEEE 754 binary32 with rounding to
  nearest, ties to even. A finite binary32 value is modelled by the rational number it
  denotes, and every arithmetic step rounds its exact result with \<open>round32\<close>:
  24 significant bits, the exponent of the leading bit not below \<open>-126\<close> (below it the
  spacing stays \<open>2 powi (-149)\<close>, the subnormal range). Overflow to infinity is not
  part of the model; \<open>temperature_steps_small\<close> and \<open>humidity_steps_small\<close> show that
  every intermediate value of the driver stays below \<open>2 ^ 24\<close> in magnitude.
\<close>

text \<open>The exponent of the leading bit: \<open>2 powi flog2 x \<le> x < 2 powi (flog2 x + 1)\<close>.\<close>

function flog2 :: "rat \<Rightarrow> int" where
  "flog2 x = (if x \<le> 0 then 0
              else if 2 \<le> x then flog2 (x / 2) + 1
              else if x < 1 then flog2 (x * 2) - 1
              else 0)"
  by pat_completeness auto
termination
proof (relation "measure (\<lambda>x. if 1 \<le> x then nat \<lfloor>x\<rfloor> else nat \<lceil>1 / x\<rceil>)")
  show "wf (measure (\<lambda>x::rat. if 1 \<le> x then nat \<lfloor>x\<rfloor> else nat \<lceil>1 / x\<rceil>))" by simp
next
  fix x :: rat
  assume a: "\<not> x \<le> 0" "2 \<le> x"
  have "\<lfloor>x / 2\<rfloor> < \<lfloor>x\<rfloor>" using a by linarith
  moreover have "0 < \<lfloor>x\<rfloor>" using a by linarith
  ultimately show "(x / 2, x) \<in> measure (\<lambda>x. if 1 \<le> x then nat \<lfloor>x\<rfloor> else nat \<lceil>1 / x\<rceil>)"
    using a by auto
next
  fix x :: rat
  assume a: "\<not> x \<le> 0" "\<not> 2 \<le> x" "x < 1"
  define y where "y = 1 / x"
  have x0: "0 < x" using a by simp
  have i1: "1 < y" using a x0 by (simp add: y_def field_simps)
  have c2: "2 \<le> \<lceil>y\<rceil>" using i1 by linarith
  show "(x * 2, x) \<in> measure (\<lambda>x. if 1 \<le> x then nat \<lfloor>x\<rfloor> else nat \<lceil>1 / x\<rceil>)"
  proof (cases "1 \<le> x * 2")
    case True
    have "x * 2 < 2" using a by simp
    then have "\<lfloor>x * 2\<rfloor> \<le> 1" by linarith
    then have "nat \<lfloor>x * 2\<rfloor> < nat \<lceil>y\<rceil>" using c2 by linarith
    then show ?thesis using True a by (simp add: y_def)
  next
    case False
    have h: "1 / (x * 2) = y / 2" by (simp add: y_def)
    define c :: rat where "c = of_int \<lceil>y\<rceil>"
    have c1: "y \<le> c" unfolding c_def by (rule le_of_int_ceiling)
    have "of_int 2 \<le> (of_int \<lceil>y\<rceil> :: rat)" using c2 by (simp only: of_int_le_iff)
    then have c3: "2 \<le> c" by (simp add: c_def)
    have "y / 2 \<le> c - 1" using c1 c3 by linarith
    then have "y / 2 \<le> of_int (\<lceil>y\<rceil> - 1)" by (simp add: c_def)
    then have "\<lceil>y / 2\<rceil> \<le> \<lceil>y\<rceil> - 1" by (simp only: ceiling_le_iff)
    then have lt: "\<lceil>y / 2\<rceil> < \<lceil>y\<rceil>" by linarith
    have e1: "\<lceil>1 / (x * 2)\<rceil> = \<lceil>y / 2\<rceil>" by (simp only: h)
    have e2: "\<lceil>1 / x\<rceil> = \<lceil>y\<rceil>" by (simp only: y_def)
    have "nat \<lceil>1 / (x * 2)\<rceil> < nat \<lceil>1 / x\<rceil>" unfolding e1 e2 using c2 lt by linarith
    then show ?thesis using False a by simp
  qed
qed

declare flog2.simps [simp del]

text \<open>Rounding to the nearest integer, a tie going to the even neighbour.\<close>

definition rne :: "rat \<Rightarrow> int" where
  "rne x = (let n = \<lfloor>x\<rfloor>; f = x - of_int n in
            if f < 1 / 2 then n
            else if 1 / 2 < f then n + 1
            else if even n then n else n + 1)"

definition round32 :: "rat \<Rightarrow> rat" where
  "round32 x = (let e = max (flog2 \<bar>x\<bar>) (- 126); q = 2 powi (e - 23)
                in of_int (rne (x / q)) * q)"

text \<open>The exponent \<open>round32\<close> works at.\<close>

definition fexp :: "rat \<Rightarrow> int" where
  "fexp x = max (flog2 \<bar>x\<bar>) (- 126)"

text \<open>A literal with suffix \<open>f\<close> is the binary32 value nearest to the decimal written.\<close>

definition f32_lit :: "rat \<Rightarrow> rat" where
  "f32_lit x = round32 x"

text \<open>The conversion \<open>float temp = t\<close> of a \<open>uint16_t\<close>.\<close>

definition f32_of_u16 :: "16 word \<Rightarrow> rat" where
  "f32_of_u16 t = round32 (of_nat (unat t))"

definition f32_mul :: "rat \<Rightarrow> rat \<Rightarrow> rat" where
  "f32_mul x y = round32 (x * y)"

text \<open>The driver divides by the non-zero literal \<open>65536.0f\<close> only.\<close>

definition f32_div :: "rat \<Rightarrow> rat \<Rightarrow> rat" where
  "f32_div x y = round32 (x / y)"

definition f32_sub :: "rat \<Rightarrow> rat \<Rightarrow> rat" where
  "f32_sub x y = round32 (x - y)"

text \<open>A \<open>float\<close> of the driver: the constant \<open>NAN\<close>, or a finite value.\<close>

datatype float = NaN | Val rat

section \<open>The bus and the clock\<close>

text \<open>
  \<open>Adafruit_I2CDevice\<close>, \<open>Adafruit_BusIO_Register\<close> and \<open>delay\<close> belong to the
  platform. Each call of the driver is recorded as an event; what a call answers is
  decided by the \<open>bus\<close>, from the events so far with the call itself last. An
  \<open>Adafruit_I2CDevice\<close> object is identified by the number it got from \<open>new\<close>.
\<close>

type_synonym byte = "8 word"
type_synonym dev = nat
type_synonym wire = nat

datatype event =
    Dev_new dev byte wire
  | Dev_delete dev
  | Dev_begin dev
  | Dev_write dev "byte list"
  | Dev_read dev nat
  | Reg_read dev byte
  | Delay nat

record bus =
  dev_begin :: "event list \<Rightarrow> bool"
  dev_write :: "event list \<Rightarrow> bool"
  dev_read3 :: "event list \<Rightarrow> (byte \<times> byte \<times> byte) option"
  reg_read :: "event list \<Rightarrow> 32 word"

record world =
  trace :: "event list"
  next_dev :: dev

definition emit :: "event \<Rightarrow> world \<Rightarrow> world" where
  "emit e w = w\<lparr>trace := trace w @ [e]\<rparr>"

text \<open>
  The command bytes and the bus address are macros of \<open>Adafruit_HTU21DF.h\<close>, which is
  not among the sources: they are parameters.
\<close>

record hdr =
  HTU21DF_I2CADDR :: byte
  HTU21DF_READTEMP :: byte
  HTU21DF_READHUM :: byte
  HTU21DF_READREG :: byte
  HTU21DF_RESET :: byte

section \<open>The driver\<close>

record driver =
  i2c_dev :: "dev option"
  last_humidity :: float
  last_temp :: float

text \<open>A call through \<open>i2c_dev\<close> while it is null has no defined behaviour.\<close>

datatype error = Null_dereference

text \<open>
  Modelled from the spec: the member declaration of \<open>i2c_dev\<close> is in the header, which
  is not among the sources; by the spec a driver that was never initialised has no
  transport. The two assignments are the constructor's.
\<close>

definition Adafruit_HTU21DF :: driver where
  "Adafruit_HTU21DF = \<lparr>i2c_dev = None, last_humidity = Val 0, last_temp = Val 0\<rparr>"

definition reset :: "hdr \<Rightarrow> bus \<Rightarrow> driver \<Rightarrow> world \<Rightarrow> error + (unit \<times> driver \<times> world)" where
  "reset K B d w =
     (case i2c_dev d of
        None \<Rightarrow> Inl Null_dereference
      | Some p \<Rightarrow>
          let cmd = HTU21DF_RESET K;
              w1 = emit (Dev_write p [cmd]) w;
              written = dev_write B (trace w1);
              w2 = emit (Delay 15) w1
          in Inr ((), d, w2))"

definition begin' :: "hdr \<Rightarrow> bus \<Rightarrow> wire \<Rightarrow> driver \<Rightarrow> world \<Rightarrow> error + (bool \<times> driver \<times> world)" where
  "begin' K B theWire d w =
     (let w1 = (case i2c_dev d of Some old \<Rightarrow> emit (Dev_delete old) w | None \<Rightarrow> w);
          p = next_dev w1;
          w2 = emit (Dev_new p (HTU21DF_I2CADDR K) theWire) (w1\<lparr>next_dev := Suc p\<rparr>);
          d1 = d\<lparr>i2c_dev := Some p\<rparr>;
          w3 = emit (Dev_begin p) w2
      in if \<not> dev_begin B (trace w3) then Inr (False, d1, w3)
         else case reset K B d1 w3 of
                Inl e \<Rightarrow> Inl e
              | Inr (u, d2, w4) \<Rightarrow>
                  (case i2c_dev d2 of
                     None \<Rightarrow> Inl Null_dereference
                   | Some r \<Rightarrow>
                       let w5 = emit (Reg_read r (HTU21DF_READREG K)) w4
                       in Inr (reg_read B (trace w5) = 2, d2, w5)))"

text \<open>
  Lines 94 to 96 and 133 to 135: the 16-bit word of the first two bytes, the two status
  bits dropped.
\<close>

definition raw16 :: "byte \<times> byte \<times> byte \<Rightarrow> 16 word" where
  "raw16 buf =
     (case buf of (b0, b1, b2) \<Rightarrow>
        let t = (ucast b0 :: 16 word);
            t = push_bit 8 t;
            t = t OR ucast (b1 AND 0xFC)
        in t)"

text \<open>Lines 100 to 103.\<close>

definition temperature_of_raw :: "16 word \<Rightarrow> rat" where
  "temperature_of_raw t =
     (let temp = f32_of_u16 t;
          temp = f32_mul temp (f32_lit (17572 / 100));
          temp = f32_div temp (f32_lit 65536);
          temp = f32_sub temp (f32_lit (4685 / 100))
      in temp)"

text \<open>Lines 139 to 142.\<close>

definition humidity_of_raw :: "16 word \<Rightarrow> rat" where
  "humidity_of_raw h =
     (let hum = f32_of_u16 h;
          hum = f32_mul hum (f32_lit 125);
          hum = f32_div hum (f32_lit 65536);
          hum = f32_sub hum (f32_lit 6)
      in hum)"

text \<open>
  The conversions in the order the specification writes them, each step in single
  precision: \<open>(r / 65536.0) * 175.72 - 46.85\<close> and \<open>(r / 65536.0) * 125.0 - 6.0\<close>.
\<close>

definition spec_temperature :: "16 word \<Rightarrow> rat" where
  "spec_temperature r =
     f32_sub (f32_mul (f32_div (f32_of_u16 r) (f32_lit 65536)) (f32_lit (17572 / 100)))
       (f32_lit (4685 / 100))"

definition spec_humidity :: "16 word \<Rightarrow> rat" where
  "spec_humidity r =
     f32_sub (f32_mul (f32_div (f32_of_u16 r) (f32_lit 65536)) (f32_lit 125)) (f32_lit 6)"

definition readTemperature :: "hdr \<Rightarrow> bus \<Rightarrow> driver \<Rightarrow> world \<Rightarrow> error + (float \<times> driver \<times> world)" where
  "readTemperature K B d w =
     (case i2c_dev d of
        None \<Rightarrow> Inl Null_dereference
      | Some p \<Rightarrow>
          let cmd = HTU21DF_READTEMP K;
              w1 = emit (Dev_write p [cmd]) w
          in if \<not> dev_write B (trace w1) then Inr (NaN, d, w1)
             else
               let w2 = emit (Delay 50) w1;
                   w3 = emit (Dev_read p 3) w2
               in case dev_read3 B (trace w3) of
                    None \<Rightarrow> Inr (NaN, d, w3)
                  | Some buf \<Rightarrow>
                      let temp = temperature_of_raw (raw16 buf)
                      in Inr (Val temp, d\<lparr>last_temp := Val temp\<rparr>, w3))"

definition readHumidity :: "hdr \<Rightarrow> bus \<Rightarrow> driver \<Rightarrow> world \<Rightarrow> error + (float \<times> driver \<times> world)" where
  "readHumidity K B d w =
     (case i2c_dev d of
        None \<Rightarrow> Inl Null_dereference
      | Some p \<Rightarrow>
          let cmd = HTU21DF_READHUM K;
              w1 = emit (Dev_write p [cmd]) w
          in if \<not> dev_write B (trace w1) then Inr (NaN, d, w1)
             else
               let w2 = emit (Delay 50) w1;
                   w3 = emit (Dev_read p 3) w2
               in case dev_read3 B (trace w3) of
                    None \<Rightarrow> Inr (NaN, d, w3)
                  | Some buf \<Rightarrow>
                      let hum = humidity_of_raw (raw16 buf)
                      in Inr (Val hum, d\<lparr>last_humidity := Val hum\<rparr>, w3))"

section \<open>Sequences of calls\<close>

datatype op = Begin wire | Reset | ReadTemperature | ReadHumidity

datatype ret = Ret_bool bool | Ret_void | Ret_float float

definition ret_of :: "('a \<Rightarrow> ret) \<Rightarrow> error + ('a \<times> driver \<times> world) \<Rightarrow> error + (ret \<times> driver \<times> world)" where
  "ret_of f r = (case r of Inl e \<Rightarrow> Inl e | Inr (x, d, w) \<Rightarrow> Inr (f x, d, w))"

fun call :: "hdr \<Rightarrow> bus \<Rightarrow> op \<Rightarrow> driver \<Rightarrow> world \<Rightarrow> error + (ret \<times> driver \<times> world)" where
  "call K B (Begin theWire) d w = ret_of Ret_bool (begin' K B theWire d w)"
| "call K B Reset d w = ret_of (\<lambda>u. Ret_void) (reset K B d w)"
| "call K B ReadTemperature d w = ret_of Ret_float (readTemperature K B d w)"
| "call K B ReadHumidity d w = ret_of Ret_float (readHumidity K B d w)"

text \<open>The calls in order, with what each returned; the run ends at the first error.\<close>

fun run :: "hdr \<Rightarrow> bus \<Rightarrow> op list \<Rightarrow> driver \<Rightarrow> world \<Rightarrow> error + ((op \<times> ret) list \<times> driver \<times> world)" where
  "run K B [] d w = Inr ([], d, w)"
| "run K B (x # xs) d w =
     (case call K B x d w of
        Inl e \<Rightarrow> Inl e
      | Inr (r, d1, w1) \<Rightarrow>
          (case run K B xs d1 w1 of
             Inl e \<Rightarrow> Inl e
           | Inr (rs, d2, w2) \<Rightarrow> Inr ((x, r) # rs, d2, w2)))"

text \<open>The value of the latest successful reading of one kind in a log, \<open>c\<close> if none.\<close>

fun latest :: "op \<Rightarrow> float \<Rightarrow> (op \<times> ret) list \<Rightarrow> float" where
  "latest k c [] = c"
| "latest k c ((x, Ret_float (Val v)) # rs) = latest k (if x = k then Val v else c) rs"
| "latest k c ((x, r) # rs) = latest k c rs"

text \<open>The object an event addresses, if any.\<close>

fun event_dev :: "event \<Rightarrow> dev option" where
  "event_dev (Dev_new p a t) = Some p"
| "event_dev (Dev_delete p) = Some p"
| "event_dev (Dev_begin p) = Some p"
| "event_dev (Dev_write p bs) = Some p"
| "event_dev (Dev_read p n) = Some p"
| "event_dev (Reg_read p a) = Some p"
| "event_dev (Delay n) = None"

definition only_dev :: "dev \<Rightarrow> event list \<Rightarrow> bool" where
  "only_dev p es = list_all (\<lambda>e. event_dev e = None \<or> event_dev e = Some p) es"

fun is_begin :: "op \<Rightarrow> bool" where
  "is_begin (Begin t) = True"
| "is_begin x = False"

text \<open>What a call returned, and the driver it left, when it returned at all.\<close>

definition returned :: "error + ('a \<times> driver \<times> world) \<Rightarrow> 'a option" where
  "returned r = (case r of Inl e \<Rightarrow> None | Inr (x, d, w) \<Rightarrow> Some x)"

definition driver_after :: "error + ('a \<times> driver \<times> world) \<Rightarrow> driver option" where
  "driver_after r = (case r of Inl e \<Rightarrow> None | Inr (x, d, w) \<Rightarrow> Some d)"

definition world_after :: "error + ('a \<times> driver \<times> world) \<Rightarrow> world option" where
  "world_after r = (case r of Inl e \<Rightarrow> None | Inr (x, d, w) \<Rightarrow> Some w)"

text \<open>
  In \<open>begin\<close>: the world in which the new transport is asked to open, and the one in
  which the status register is read.
\<close>

definition at_open :: "hdr \<Rightarrow> wire \<Rightarrow> driver \<Rightarrow> world \<Rightarrow> world" where
  "at_open K theWire d w =
     (let w1 = (case i2c_dev d of Some old \<Rightarrow> emit (Dev_delete old) w | None \<Rightarrow> w);
          p = next_dev w1
      in emit (Dev_begin p) (emit (Dev_new p (HTU21DF_I2CADDR K) theWire) (w1\<lparr>next_dev := Suc p\<rparr>)))"

definition at_status :: "hdr \<Rightarrow> wire \<Rightarrow> driver \<Rightarrow> world \<Rightarrow> world" where
  "at_status K theWire d w =
     (let w3 = at_open K theWire d w; p = next_dev w
      in emit (Reg_read p (HTU21DF_READREG K))
           (emit (Delay 15) (emit (Dev_write p [HTU21DF_RESET K]) w3)))"

text \<open>
  A measurement started with command \<open>cmd\<close> on transport \<open>p\<close> fails: the write of the
  command fails, or the read of three bytes after it does.
\<close>

definition write_fails :: "bus \<Rightarrow> dev \<Rightarrow> byte \<Rightarrow> world \<Rightarrow> bool" where
  "write_fails B p cmd w = (\<not> dev_write B (trace w @ [Dev_write p [cmd]]))"

definition read_fails :: "bus \<Rightarrow> dev \<Rightarrow> byte \<Rightarrow> world \<Rightarrow> bool" where
  "read_fails B p cmd w =
     (dev_read3 B (trace w @ [Dev_write p [cmd], Delay 50, Dev_read p 3]) = None)"

text \<open>
  The same bus, except that every three bytes it answers have the two low bits of the
  second byte cleared and the third byte replaced by \<open>c\<close>.
\<close>

definition masked :: "byte \<Rightarrow> bus \<Rightarrow> bus" where
  "masked c B =
     B\<lparr>dev_read3 := (\<lambda>h. case dev_read3 B h of
                              None \<Rightarrow> None
                            | Some (b0, b1, b2) \<Rightarrow> Some (b0, b1 AND 0xFC, c))\<rparr>"

text \<open>A bus for examples: every call answers the same.\<close>

definition const_bus :: "bool \<Rightarrow> bool \<Rightarrow> (byte \<times> byte \<times> byte) option \<Rightarrow> 32 word \<Rightarrow> bus" where
  "const_bus ob ow rd rg =
     \<lparr>dev_begin = (\<lambda>h. ob), dev_write = (\<lambda>h. ow), dev_read3 = (\<lambda>h. rd), reg_read = (\<lambda>h. rg)\<rparr>"

text \<open>A bus whose writes succeed only while fewer than twelve events have happened.\<close>

definition early_bus :: bus where
  "early_bus =
     \<lparr>dev_begin = (\<lambda>h. True), dev_write = (\<lambda>h. length h < 12),
      dev_read3 = (\<lambda>h. Some (0x63, 0x92, 0)), reg_read = (\<lambda>h. 2)\<rparr>"

text \<open>Values of the macros for examples, and a world and a driver to start from.\<close>

definition hdr0 :: hdr where
  "hdr0 = \<lparr>HTU21DF_I2CADDR = 0x40, HTU21DF_READTEMP = 0xE3, HTU21DF_READHUM = 0xE5,
           HTU21DF_READREG = 0xE7, HTU21DF_RESET = 0xFE\<rparr>"

definition world0 :: world where
  "world0 = \<lparr>trace = [], next_dev = 0\<rparr>"

definition driver1 :: driver where
  "driver1 = \<lparr>i2c_dev = Some 0, last_humidity = Val 3, last_temp = Val 7\<rparr>"

section \<open>Initialisation and reset\<close>

lemma next_dev_emit [simp]: "next_dev (emit e w) = next_dev w"
  by (simp add: emit_def)

lemma trace_emit [simp]: "trace (emit e w) = trace w @ [e]"
  by (simp add: emit_def)

lemma reset_Some:
  "i2c_dev d = Some p \<Longrightarrow>
   reset K B d w = Inr ((), d, emit (Delay 15) (emit (Dev_write p [HTU21DF_RESET K]) w))"
  by (simp add: reset_def Let_def)

lemma begin_eq:
  "begin' K B theWire d w =
     (if dev_begin B (trace (at_open K theWire d w))
      then Inr (reg_read B (trace (at_status K theWire d w)) = 2,
                d\<lparr>i2c_dev := Some (next_dev w)\<rparr>, at_status K theWire d w)
      else Inr (False, d\<lparr>i2c_dev := Some (next_dev w)\<rparr>, at_open K theWire d w))"
  by (cases "i2c_dev d") (simp_all add: begin'_def at_open_def at_status_def Let_def reset_Some)

text \<open>
  C3. \<open>begin\<close> always returns, and it returns true exactly when the transport opened
  and the status register, read after the reset, holds 2: any other status value, and a
  transport that does not open, give false.
\<close>

theorem begin_true_iff:
  "returned (begin' K B theWire d w) =
     Some (dev_begin B (trace (at_open K theWire d w)) \<and>
           reg_read B (trace (at_status K theWire d w)) = 2)"
  by (simp add: begin_eq returned_def)

text \<open>
  C7. With a transport present, \<open>reset\<close> returns nothing, leaves the driver as it was
  and adds exactly two events: the write of the one byte \<open>HTU21DF_RESET\<close>, then a
  delay of 15 milliseconds. The answer of the write plays no part: on any two buses the
  call does the same.
\<close>

theorem reset_writes_then_waits:
  "i2c_dev d = Some p \<Longrightarrow>
   reset K B d w =
     Inr ((), d, w\<lparr>trace := trace w @ [Dev_write p [HTU21DF_RESET K], Delay 15]\<rparr>) \<and>
   reset K B' d w = reset K B d w"
  by (simp add: reset_Some emit_def)

theorem reset_writes_then_waits_witness:
  "i2c_dev driver1 = Some 0 \<and>
   reset hdr0 (const_bus True False None 0) driver1 world0 =
     Inr ((), driver1, \<lparr>trace = [Dev_write 0 [0xFE], Delay 15], next_dev = 0\<rparr>) \<and>
   reset hdr0 (const_bus True True None 0) driver1 world0 =
     reset hdr0 (const_bus True False None 0) driver1 world0"
  using reset_writes_then_waits [of driver1 0 hdr0 "const_bus True False None 0" world0
      "const_bus True True None 0"]
  by (simp add: driver1_def hdr0_def world0_def)

section \<open>Measurements\<close>

lemma readTemperature_Some:
  "i2c_dev d = Some p \<Longrightarrow>
   readTemperature K B d w =
     (let w1 = emit (Dev_write p [HTU21DF_READTEMP K]) w;
          w3 = emit (Dev_read p 3) (emit (Delay 50) w1)
      in if write_fails B p (HTU21DF_READTEMP K) w then Inr (NaN, d, w1)
         else if read_fails B p (HTU21DF_READTEMP K) w then Inr (NaN, d, w3)
         else let temp = temperature_of_raw (raw16 (the (dev_read3 B (trace w3))))
              in Inr (Val temp, d\<lparr>last_temp := Val temp\<rparr>, w3))"
  by (auto simp add: readTemperature_def write_fails_def read_fails_def Let_def
      split: option.splits)

lemma readHumidity_Some:
  "i2c_dev d = Some p \<Longrightarrow>
   readHumidity K B d w =
     (let w1 = emit (Dev_write p [HTU21DF_READHUM K]) w;
          w3 = emit (Dev_read p 3) (emit (Delay 50) w1)
      in if write_fails B p (HTU21DF_READHUM K) w then Inr (NaN, d, w1)
         else if read_fails B p (HTU21DF_READHUM K) w then Inr (NaN, d, w3)
         else let hum = humidity_of_raw (raw16 (the (dev_read3 B (trace w3))))
              in Inr (Val hum, d\<lparr>last_humidity := Val hum\<rparr>, w3))"
  by (auto simp add: readHumidity_def write_fails_def read_fails_def Let_def
      split: option.splits)

text \<open>
  C4, amended. For every driver that holds a transport: when the write of the
  measurement command fails, or the read of three bytes after it fails,
  \<open>readTemperature\<close> and \<open>readHumidity\<close> return \<open>NAN\<close> and leave the driver, both
  cached readings included, exactly as it was.
\<close>

theorem failed_read_keeps_cache:
  "i2c_dev d = Some p \<Longrightarrow>
   (write_fails B p (HTU21DF_READTEMP K) w \<or> read_fails B p (HTU21DF_READTEMP K) w \<longrightarrow>
      returned (readTemperature K B d w) = Some NaN \<and>
      driver_after (readTemperature K B d w) = Some d) \<and>
   (write_fails B p (HTU21DF_READHUM K) w \<or> read_fails B p (HTU21DF_READHUM K) w \<longrightarrow>
      returned (readHumidity K B d w) = Some NaN \<and>
      driver_after (readHumidity K B d w) = Some d)"
  by (simp add: readTemperature_Some readHumidity_Some Let_def returned_def driver_after_def)

theorem failed_read_keeps_cache_witness:
  "i2c_dev driver1 = Some 0 \<and>
   write_fails (const_bus True False None 0) 0 (HTU21DF_READTEMP hdr0) world0 \<and>
   write_fails (const_bus True False None 0) 0 (HTU21DF_READHUM hdr0) world0 \<and>
   returned (readTemperature hdr0 (const_bus True False None 0) driver1 world0) = Some NaN \<and>
   driver_after (readTemperature hdr0 (const_bus True False None 0) driver1 world0) = Some driver1 \<and>
   returned (readHumidity hdr0 (const_bus True False None 0) driver1 world0) = Some NaN \<and>
   driver_after (readHumidity hdr0 (const_bus True False None 0) driver1 world0) = Some driver1 \<and>
   \<not> write_fails (const_bus True True None 0) 0 (HTU21DF_READTEMP hdr0) world0 \<and>
   read_fails (const_bus True True None 0) 0 (HTU21DF_READTEMP hdr0) world0 \<and>
   read_fails (const_bus True True None 0) 0 (HTU21DF_READHUM hdr0) world0 \<and>
   returned (readTemperature hdr0 (const_bus True True None 0) driver1 world0) = Some NaN \<and>
   driver_after (readTemperature hdr0 (const_bus True True None 0) driver1 world0) = Some driver1 \<and>
   returned (readHumidity hdr0 (const_bus True True None 0) driver1 world0) = Some NaN \<and>
   driver_after (readHumidity hdr0 (const_bus True True None 0) driver1 world0) = Some driver1"
  using failed_read_keeps_cache [of driver1 0 "const_bus True False None 0" hdr0 world0]
    failed_read_keeps_cache [of driver1 0 "const_bus True True None 0" hdr0 world0]
  by (simp add: driver1_def write_fails_def read_fails_def const_bus_def)

text \<open>
  C4 as stated, for every driver state, fails on the driver that was never initialised:
  \<open>i2c_dev\<close> is null, so on a bus where every write fails the two calls go through the
  null pointer and return nothing, not \<open>NAN\<close>.
\<close>

theorem read_without_transport_returns_nothing:
  "i2c_dev Adafruit_HTU21DF = None \<and>
   readTemperature hdr0 (const_bus True False None 0) Adafruit_HTU21DF world0 =
     Inl Null_dereference \<and>
   readHumidity hdr0 (const_bus True False None 0) Adafruit_HTU21DF world0 =
     Inl Null_dereference \<and>
   returned (readTemperature hdr0 (const_bus True False None 0) Adafruit_HTU21DF world0) \<noteq>
     Some NaN \<and>
   returned (readHumidity hdr0 (const_bus True False None 0) Adafruit_HTU21DF world0) \<noteq>
     Some NaN"
  by (simp add: readTemperature_def readHumidity_def Adafruit_HTU21DF_def returned_def)

lemma raw16_masked: "raw16 (b0, b1 AND 0xFC, c) = raw16 (b0, b1, b2)"
  by (simp add: raw16_def Let_def and.assoc)

lemma readTemperature_masked: "readTemperature K (masked c B) d w = readTemperature K B d w"
proof (cases "i2c_dev d")
  case None
  then show ?thesis by (simp add: readTemperature_def)
next
  case (Some p)
  show ?thesis
  proof (cases "dev_read3 B (trace w @ [Dev_write p [HTU21DF_READTEMP K], Delay 50, Dev_read p 3])")
    case None
    then show ?thesis using Some by (simp add: readTemperature_def masked_def Let_def)
  next
    case (Some buf)
    obtain b0 b1 b2 where buf: "buf = (b0, b1, b2)" by (cases buf)
    have "raw16 (b0, b1 AND 0xFC, c) = raw16 (b0, b1, b2)" by (rule raw16_masked)
    then show ?thesis using Some \<open>i2c_dev d = Some p\<close> buf
      by (simp add: readTemperature_def masked_def Let_def)
  qed
qed

lemma readHumidity_masked: "readHumidity K (masked c B) d w = readHumidity K B d w"
proof (cases "i2c_dev d")
  case None
  then show ?thesis by (simp add: readHumidity_def)
next
  case (Some p)
  show ?thesis
  proof (cases "dev_read3 B (trace w @ [Dev_write p [HTU21DF_READHUM K], Delay 50, Dev_read p 3])")
    case None
    then show ?thesis using Some by (simp add: readHumidity_def masked_def Let_def)
  next
    case (Some buf)
    obtain b0 b1 b2 where buf: "buf = (b0, b1, b2)" by (cases buf)
    have "raw16 (b0, b1 AND 0xFC, c) = raw16 (b0, b1, b2)" by (rule raw16_masked)
    then show ?thesis using Some \<open>i2c_dev d = Some p\<close> buf
      by (simp add: readHumidity_def masked_def Let_def)
  qed
qed

text \<open>
  C5. The word decoded from three bytes is the same when the two low bits of the second
  byte are cleared and the third byte is replaced by any other, and so are the
  temperature and the humidity computed from it; \<open>readTemperature\<close> and
  \<open>readHumidity\<close> do the same on a bus and on that bus with every answer so changed.
\<close>

theorem decode_ignores_status_and_checksum:
  "raw16 (b0, b1 AND 0xFC, c) = raw16 (b0, b1, b2) \<and>
   temperature_of_raw (raw16 (b0, b1 AND 0xFC, c)) = temperature_of_raw (raw16 (b0, b1, b2)) \<and>
   humidity_of_raw (raw16 (b0, b1 AND 0xFC, c)) = humidity_of_raw (raw16 (b0, b1, b2)) \<and>
   readTemperature K (masked c B) d w = readTemperature K B d w \<and>
   readHumidity K (masked c B) d w = readHumidity K B d w"
  using raw16_masked [of b0 b1 c b2]
  by (simp add: readTemperature_masked readHumidity_masked)

text \<open>
  C9. \<open>readTemperature\<close> changes no field of the driver but \<open>last_temp\<close>,
  \<open>readHumidity\<close> none but \<open>last_humidity\<close>, \<open>reset\<close> none at all, and \<open>begin\<close>
  none but \<open>i2c_dev\<close>.
\<close>

theorem calls_frame:
  "(readTemperature K B d w = Inr (x, d1, w1) \<longrightarrow> d1 = d\<lparr>last_temp := last_temp d1\<rparr>) \<and>
   (readHumidity K B d w = Inr (y, d2, w2) \<longrightarrow> d2 = d\<lparr>last_humidity := last_humidity d2\<rparr>) \<and>
   (reset K B d w = Inr (u, d3, w3) \<longrightarrow> d3 = d) \<and>
   (begin' K B theWire d w = Inr (ok, d4, w4) \<longrightarrow> d4 = d\<lparr>i2c_dev := i2c_dev d4\<rparr>)"
  by (auto simp add: readTemperature_def readHumidity_def reset_def begin_eq Let_def
      split: option.splits if_splits)

theorem calls_frame_witness:
  "readTemperature hdr0 (const_bus True True (Some (0x63, 0x92, 0)) 2) driver1 world0 =
     Inr (Val (temperature_of_raw 0x6390),
          driver1\<lparr>last_temp := Val (temperature_of_raw 0x6390)\<rparr>,
          \<lparr>trace = [Dev_write 0 [0xE3], Delay 50, Dev_read 0 3], next_dev = 0\<rparr>) \<and>
   readHumidity hdr0 (const_bus True True (Some (0x63, 0x92, 0)) 2) driver1 world0 =
     Inr (Val (humidity_of_raw 0x6390),
          driver1\<lparr>last_humidity := Val (humidity_of_raw 0x6390)\<rparr>,
          \<lparr>trace = [Dev_write 0 [0xE5], Delay 50, Dev_read 0 3], next_dev = 0\<rparr>) \<and>
   reset hdr0 (const_bus True True (Some (0x63, 0x92, 0)) 2) driver1 world0 =
     Inr ((), driver1, \<lparr>trace = [Dev_write 0 [0xFE], Delay 15], next_dev = 0\<rparr>) \<and>
   begin' hdr0 (const_bus True True (Some (0x63, 0x92, 0)) 2) 0 driver1 world0 =
     Inr (True, driver1\<lparr>i2c_dev := Some 0\<rparr>,
          \<lparr>trace = [Dev_delete 0, Dev_new 0 0x40 0, Dev_begin 0, Dev_write 0 [0xFE], Delay 15,
                     Reg_read 0 0xE7], next_dev = 1\<rparr>) \<and>
   last_humidity (driver1\<lparr>last_temp := Val (temperature_of_raw 0x6390)\<rparr>) = Val 3 \<and>
   last_temp (driver1\<lparr>last_humidity := Val (humidity_of_raw 0x6390)\<rparr>) = Val 7"
  using calls_frame [of hdr0 "const_bus True True (Some (0x63, 0x92, 0)) 2" driver1 world0]
  by (simp add: readTemperature_def readHumidity_def reset_def begin_eq at_open_def at_status_def
      Let_def driver1_def hdr0_def world0_def const_bus_def emit_def raw16_def)

section \<open>The cached readings\<close>

lemma latest_step: "latest k c ((x, r) # rs) = latest k (latest k c [(x, r)]) rs"
proof (cases r)
  case (Ret_float f)
  then show ?thesis by (cases f) simp_all
qed simp_all

lemma call_cache:
  assumes "call K B x d w = Inr (r, d1, w1)"
  shows "last_temp d1 = latest ReadTemperature (last_temp d) [(x, r)] \<and>
         last_humidity d1 = latest ReadHumidity (last_humidity d) [(x, r)]"
proof (cases x)
  case (Begin t)
  then show ?thesis using assms
    by (auto simp add: ret_of_def begin_eq split: if_splits)
next
  case Reset
  then show ?thesis using assms
    by (auto simp add: ret_of_def reset_def Let_def split: option.splits)
next
  case ReadTemperature
  then show ?thesis using assms
    by (auto simp add: ret_of_def readTemperature_def Let_def split: option.splits if_splits)
next
  case ReadHumidity
  then show ?thesis using assms
    by (auto simp add: ret_of_def readHumidity_def Let_def split: option.splits if_splits)
qed

lemma run_cache:
  "run K B ops d w = Inr (rs, d', w') \<Longrightarrow>
   last_temp d' = latest ReadTemperature (last_temp d) rs \<and>
   last_humidity d' = latest ReadHumidity (last_humidity d) rs"
proof (induction ops arbitrary: d w rs)
  case Nil
  then show ?case by simp
next
  case (Cons x xs)
  from Cons.prems obtain r d1 w1 rs1 where
    c: "call K B x d w = Inr (r, d1, w1)" and
    r: "run K B xs d1 w1 = Inr (rs1, d', w')" and
    e: "rs = (x, r) # rs1"
    by (auto split: sum.splits)
  have "last_temp d' = latest ReadTemperature (last_temp d1) rs1"
    and "last_humidity d' = latest ReadHumidity (last_humidity d1) rs1"
    using Cons.IH [OF r] by simp_all
  moreover have "last_temp d1 = latest ReadTemperature (last_temp d) [(x, r)]"
    and "last_humidity d1 = latest ReadHumidity (last_humidity d) [(x, r)]"
    using call_cache [OF c] by simp_all
  ultimately show ?case
    unfolding e
    using latest_step [of ReadTemperature "last_temp d" x r rs1]
      latest_step [of ReadHumidity "last_humidity d" x r rs1]
    by simp
qed

text \<open>
  C6. Both cached readings are zero after construction. After any sequence of calls
  that returned, \<open>last_temp\<close> is the value of the latest \<open>readTemperature\<close> that
  succeeded, zero if there was none, and \<open>last_humidity\<close> that of the latest
  \<open>readHumidity\<close> that succeeded: a read that failed in between changes neither.
\<close>

theorem cache_is_latest_reading:
  "last_temp Adafruit_HTU21DF = Val 0 \<and> last_humidity Adafruit_HTU21DF = Val 0 \<and>
   (run K B ops Adafruit_HTU21DF w = Inr (rs, d, w') \<longrightarrow>
      last_temp d = latest ReadTemperature (Val 0) rs \<and>
      last_humidity d = latest ReadHumidity (Val 0) rs)"
proof -
  have z: "last_temp Adafruit_HTU21DF = Val 0" "last_humidity Adafruit_HTU21DF = Val 0"
    by (simp_all add: Adafruit_HTU21DF_def)
  show ?thesis using run_cache [of K B ops Adafruit_HTU21DF w rs d w'] by (simp add: z)
qed

theorem cache_is_latest_reading_witness:
  "run hdr0 early_bus [Begin 0, ReadTemperature, ReadHumidity, ReadTemperature, ReadHumidity]
     Adafruit_HTU21DF world0 =
     Inr ([(Begin 0, Ret_bool True),
           (ReadTemperature, Ret_float (Val (temperature_of_raw 0x6390))),
           (ReadHumidity, Ret_float (Val (humidity_of_raw 0x6390))),
           (ReadTemperature, Ret_float NaN),
           (ReadHumidity, Ret_float NaN)],
          \<lparr>i2c_dev = Some 0, last_humidity = Val (humidity_of_raw 0x6390),
             last_temp = Val (temperature_of_raw 0x6390)\<rparr>,
          \<lparr>trace = [Dev_new 0 0x40 0, Dev_begin 0, Dev_write 0 [0xFE], Delay 15, Reg_read 0 0xE7,
                     Dev_write 0 [0xE3], Delay 50, Dev_read 0 3,
                     Dev_write 0 [0xE5], Delay 50, Dev_read 0 3,
                     Dev_write 0 [0xE3], Dev_write 0 [0xE5]], next_dev = 1\<rparr>) \<and>
   latest ReadTemperature (Val 0)
     [(Begin 0, Ret_bool True),
      (ReadTemperature, Ret_float (Val (temperature_of_raw 0x6390))),
      (ReadHumidity, Ret_float (Val (humidity_of_raw 0x6390))),
      (ReadTemperature, Ret_float NaN),
      (ReadHumidity, Ret_float NaN)] = Val (temperature_of_raw 0x6390)"
  using cache_is_latest_reading [of hdr0 early_bus
      "[Begin 0, ReadTemperature, ReadHumidity, ReadTemperature, ReadHumidity]" world0]
  by (simp add: ret_of_def readTemperature_def readHumidity_def begin_eq at_open_def at_status_def
      Let_def Adafruit_HTU21DF_def hdr0_def world0_def early_bus_def emit_def raw16_def)

section \<open>Initialising twice\<close>

lemma only_dev_append: "only_dev p (xs @ ys) \<longleftrightarrow> only_dev p xs \<and> only_dev p ys"
  by (simp add: only_dev_def)

lemma call_same_dev:
  assumes "call K B x d w = Inr (r, d1, w1)" and "\<not> is_begin x" and "i2c_dev d = Some p"
  shows "i2c_dev d1 = Some p \<and> (\<exists>es. trace w1 = trace w @ es \<and> only_dev p es)"
proof (cases x)
  case (Begin t)
  then show ?thesis using assms by simp
next
  case Reset
  then show ?thesis using assms
    by (auto simp add: ret_of_def reset_def Let_def only_dev_def)
next
  case ReadTemperature
  then show ?thesis using assms
    by (auto simp add: ret_of_def readTemperature_def Let_def only_dev_def
        split: option.splits if_splits)
next
  case ReadHumidity
  then show ?thesis using assms
    by (auto simp add: ret_of_def readHumidity_def Let_def only_dev_def
        split: option.splits if_splits)
qed

lemma run_same_dev:
  "run K B ops d w = Inr (rs, d', w') \<Longrightarrow> \<not> list_ex is_begin ops \<Longrightarrow> i2c_dev d = Some p \<Longrightarrow>
   i2c_dev d' = Some p \<and> (\<exists>es. trace w' = trace w @ es \<and> only_dev p es)"
proof (induction ops arbitrary: d w rs)
  case Nil
  then show ?case by (simp add: only_dev_def)
next
  case (Cons x xs)
  from Cons.prems(1) obtain r d1 w1 rs1 where
    c: "call K B x d w = Inr (r, d1, w1)" and
    r: "run K B xs d1 w1 = Inr (rs1, d', w')"
    by (auto split: sum.splits)
  have nb: "\<not> is_begin x" "\<not> list_ex is_begin xs" using Cons.prems(2) by simp_all
  from call_same_dev [OF c nb(1) Cons.prems(3)] obtain es1 where
    d1: "i2c_dev d1 = Some p" and t1: "trace w1 = trace w @ es1" and o1: "only_dev p es1"
    by blast
  from Cons.IH [OF r nb(2) d1] obtain es2 where
    d2: "i2c_dev d' = Some p" and t2: "trace w' = trace w1 @ es2" and o2: "only_dev p es2"
    by blast
  have "trace w' = trace w @ (es1 @ es2)" using t1 t2 by simp
  moreover have "only_dev p (es1 @ es2)" using o1 o2 by (simp add: only_dev_append)
  ultimately show ?case using d2 by blast
qed

text \<open>
  C8. When \<open>begin\<close> is called on a driver that a call of \<open>begin\<close> initialised, the
  second call first deletes the transport of the first and then creates another one, and
  in every later sequence of \<open>reset\<close>, \<open>readTemperature\<close> and \<open>readHumidity\<close> the
  driver keeps that second transport and every event on a transport is on it.
\<close>

theorem second_begin_replaces_transport:
  assumes "begin' K B t1 d0 w0 = Inr (ok1, d1, w1)"
    and "begin' K B t2 d1 w1 = Inr (ok2, d2, w2)"
    and "run K B ops d2 w2 = Inr (rs, d3, w3)"
    and "\<not> list_ex is_begin ops"
  shows "i2c_dev d1 = Some (next_dev w0) \<and> i2c_dev d2 = Some (next_dev w1) \<and>
         next_dev w1 \<noteq> next_dev w0 \<and>
         take 2 (drop (length (trace w1)) (trace w2)) =
           [Dev_delete (next_dev w0), Dev_new (next_dev w1) (HTU21DF_I2CADDR K) t2] \<and>
         i2c_dev d3 = Some (next_dev w1) \<and>
         only_dev (next_dev w1) (drop (length (trace w2)) (trace w3))"
proof -
  have a1: "i2c_dev d1 = Some (next_dev w0)" and n1: "next_dev w1 = Suc (next_dev w0)"
    using assms(1)
    by (auto simp add: begin_eq at_open_def at_status_def Let_def
        split: if_splits option.splits)
  have a2: "i2c_dev d2 = Some (next_dev w1)"
    using assms(2) by (auto simp add: begin_eq split: if_splits)
  have tr: "take 2 (drop (length (trace w1)) (trace w2)) =
           [Dev_delete (next_dev w0), Dev_new (next_dev w1) (HTU21DF_I2CADDR K) t2]"
    using assms(2) a1
    by (auto simp add: begin_eq at_open_def at_status_def Let_def split: if_splits)
  from run_same_dev [OF assms(3) assms(4) a2] obtain es where
    d3: "i2c_dev d3 = Some (next_dev w1)" and t3: "trace w3 = trace w2 @ es"
    and o3: "only_dev (next_dev w1) es"
    by blast
  have "drop (length (trace w2)) (trace w3) = es" using t3 by simp
  then show ?thesis using a1 a2 n1 tr d3 o3 by simp
qed

theorem second_begin_replaces_transport_witness:
  "begin' hdr0 (const_bus True True (Some (0x63, 0x92, 0)) 2) 0 Adafruit_HTU21DF world0 =
     Inr (True, Adafruit_HTU21DF\<lparr>i2c_dev := Some 0\<rparr>,
          \<lparr>trace = [Dev_new 0 0x40 0, Dev_begin 0, Dev_write 0 [0xFE], Delay 15, Reg_read 0 0xE7],
             next_dev = 1\<rparr>) \<and>
   world_after (begin' hdr0 (const_bus True True (Some (0x63, 0x92, 0)) 2) 0
      (Adafruit_HTU21DF\<lparr>i2c_dev := Some 0\<rparr>)
      \<lparr>trace = [Dev_new 0 0x40 0, Dev_begin 0, Dev_write 0 [0xFE], Delay 15, Reg_read 0 0xE7],
         next_dev = 1\<rparr>) =
     Some \<lparr>trace = [Dev_new 0 0x40 0, Dev_begin 0, Dev_write 0 [0xFE], Delay 15, Reg_read 0 0xE7,
                     Dev_delete 0, Dev_new 1 0x40 0, Dev_begin 1, Dev_write 1 [0xFE], Delay 15,
                     Reg_read 1 0xE7], next_dev = 2\<rparr> \<and>
   world_after (run hdr0 (const_bus True True (Some (0x63, 0x92, 0)) 2)
      [ReadTemperature, Reset, ReadHumidity] (Adafruit_HTU21DF\<lparr>i2c_dev := Some 1\<rparr>)
      \<lparr>trace = [Dev_new 0 0x40 0, Dev_begin 0, Dev_write 0 [0xFE], Delay 15, Reg_read 0 0xE7,
                 Dev_delete 0, Dev_new 1 0x40 0, Dev_begin 1, Dev_write 1 [0xFE], Delay 15,
                 Reg_read 1 0xE7], next_dev = 2\<rparr>) =
     Some \<lparr>trace = [Dev_new 0 0x40 0, Dev_begin 0, Dev_write 0 [0xFE], Delay 15, Reg_read 0 0xE7,
                     Dev_delete 0, Dev_new 1 0x40 0, Dev_begin 1, Dev_write 1 [0xFE], Delay 15,
                     Reg_read 1 0xE7,
                     Dev_write 1 [0xE3], Delay 50, Dev_read 1 3,
                     Dev_write 1 [0xFE], Delay 15,
                     Dev_write 1 [0xE5], Delay 50, Dev_read 1 3], next_dev = 2\<rparr> \<and>
   \<not> list_ex is_begin [ReadTemperature, Reset, ReadHumidity] \<and>
   only_dev 1 [Dev_write 1 [0xE3], Delay 50, Dev_read 1 3, Dev_write 1 [0xFE], Delay 15,
               Dev_write 1 [0xE5], Delay 50, Dev_read 1 3]"
  using second_begin_replaces_transport
    [of hdr0 "const_bus True True (Some (0x63, 0x92, 0)) 2" 0 Adafruit_HTU21DF world0 True
      "Adafruit_HTU21DF\<lparr>i2c_dev := Some 0\<rparr>"
      "\<lparr>trace = [Dev_new 0 0x40 0, Dev_begin 0, Dev_write 0 [0xFE], Delay 15, Reg_read 0 0xE7],
         next_dev = 1\<rparr>"
      0 True "Adafruit_HTU21DF\<lparr>i2c_dev := Some 1\<rparr>"
      "\<lparr>trace = [Dev_new 0 0x40 0, Dev_begin 0, Dev_write 0 [0xFE], Delay 15, Reg_read 0 0xE7,
                 Dev_delete 0, Dev_new 1 0x40 0, Dev_begin 1, Dev_write 1 [0xFE], Delay 15,
                 Reg_read 1 0xE7], next_dev = 2\<rparr>"
      "[ReadTemperature, Reset, ReadHumidity]"]
  by (simp add: ret_of_def readTemperature_def readHumidity_def reset_def begin_eq at_open_def
      at_status_def Let_def Adafruit_HTU21DF_def hdr0_def world0_def const_bus_def emit_def
      raw16_def world_after_def only_dev_def)

section \<open>Properties of the rounding\<close>

lemma pow2_pos: "0 < (2::rat) powi k"
  by simp

lemma pow2_Suc: "(2::rat) powi (k + 1) = 2 powi k * 2"
  by (simp add: power_int_add_1)

lemma pow2_pred: "(2::rat) powi (k - 1) = 2 powi k / 2"
  using pow2_Suc [of "k - 1"] by simp

lemma pow2_le: "i \<le> j \<Longrightarrow> (2::rat) powi i \<le> 2 powi j"
  by (rule power_int_increasing) simp_all

lemma pow2_less: "i < j \<Longrightarrow> (2::rat) powi i < 2 powi j"
  by (rule power_int_strict_increasing) simp_all

lemma flog2_bounds: "0 < x \<Longrightarrow> 2 powi flog2 x \<le> x \<and> x < 2 powi (flog2 x + 1)"
proof (induction x rule: flog2.induct)
  case (1 x)
  show ?case
  proof (cases "2 \<le> x")
    case True
    have e: "flog2 x = flog2 (x / 2) + 1" using True 1(3) by (simp add: flog2.simps [of x])
    have "2 powi flog2 (x / 2) \<le> x / 2 \<and> x / 2 < 2 powi (flog2 (x / 2) + 1)"
      using 1(1) True 1(3) by simp
    then show ?thesis unfolding e pow2_Suc by simp
  next
    case False
    show ?thesis
    proof (cases "x < 1")
      case True
      have e: "flog2 x = flog2 (x * 2) - 1" using True False 1(3) by (simp add: flog2.simps [of x])
      have "2 powi flog2 (x * 2) \<le> x * 2 \<and> x * 2 < 2 powi (flog2 (x * 2) + 1)"
        using 1(2) True False 1(3) by simp
      then show ?thesis unfolding e pow2_pred by (simp add: pow2_Suc)
    next
      case F2: False
      have e: "flog2 x = 0" using F2 False 1(3) by (simp add: flog2.simps [of x])
      show ?thesis unfolding e using F2 False by simp
    qed
  qed
qed

lemma flog2_unique:
  assumes "0 < x" "2 powi e \<le> x" "x < 2 powi (e + 1)"
  shows "flog2 x = e"
proof -
  have b: "2 powi flog2 x \<le> x" "x < 2 powi (flog2 x + 1)" using flog2_bounds [OF assms(1)] by simp_all
  have "\<not> flog2 x < e"
  proof
    assume "flog2 x < e"
    then have "(2::rat) powi (flog2 x + 1) \<le> 2 powi e" by (intro pow2_le) simp
    then show False using b(2) assms(2) by linarith
  qed
  moreover have "\<not> e < flog2 x"
  proof
    assume "e < flog2 x"
    then have "(2::rat) powi (e + 1) \<le> 2 powi flog2 x" by (intro pow2_le) simp
    then show False using b(1) assms(3) by linarith
  qed
  ultimately show ?thesis by simp
qed

lemma flog2_mono: "0 < x \<Longrightarrow> x \<le> y \<Longrightarrow> flog2 x \<le> flog2 y"
proof (rule ccontr)
  assume a: "0 < x" "x \<le> y" "\<not> flog2 x \<le> flog2 y"
  then have "(2::rat) powi (flog2 y + 1) \<le> 2 powi flog2 x" by (intro pow2_le) simp
  moreover have "y < 2 powi (flog2 y + 1)" using flog2_bounds [of y] a by simp
  moreover have "2 powi flog2 x \<le> x" using flog2_bounds [of x] a by simp
  ultimately show False using a(2) by linarith
qed

lemma flog2_scale: "0 < x \<Longrightarrow> flog2 (x * 2 powi j) = flog2 x + j"
proof (rule flog2_unique)
  assume x: "0 < x"
  show "0 < x * 2 powi j" using x by simp
  have b: "2 powi flog2 x \<le> x" "x < 2 powi (flog2 x + 1)" using flog2_bounds [OF x] by simp_all
  have "(2::rat) powi (flog2 x + j) = 2 powi flog2 x * 2 powi j" by (simp add: power_int_add)
  then show "2 powi (flog2 x + j) \<le> x * 2 powi j" using b(1) by simp
  have "(2::rat) powi (flog2 x + j + 1) = 2 powi (flog2 x + 1) * 2 powi j"
    by (simp add: power_int_add)
  then show "x * 2 powi j < 2 powi (flog2 x + j + 1)" using b(2) by simp
qed

lemma rne_near: "\<bar>x - of_int (rne x)\<bar> \<le> 1 / 2"
proof -
  have "of_int \<lfloor>x\<rfloor> \<le> x" "x < of_int \<lfloor>x\<rfloor> + 1" by linarith+
  then show ?thesis by (auto simp add: rne_def Let_def)
qed

lemma rne_of_int: "rne (of_int k) = k"
  by (simp add: rne_def Let_def)

lemma int_between:
  fixes n m :: int and x :: rat
  assumes "of_int m \<le> x" "x < of_int m + 1" "\<bar>x - of_int n\<bar> \<le> 1 / 2"
  shows "n = m \<or> n = m + 1"
proof -
  have "(of_int n :: rat) < of_int m + 2" using assms by linarith
  then have "(of_int n :: rat) < of_int (m + 2)" by simp
  then have a: "n < m + 2" by (simp only: of_int_less_iff)
  have "(of_int m :: rat) - 1 < of_int n" using assms by linarith
  then have "(of_int (m - 1) :: rat) < of_int n" by simp
  then have b: "m - 1 < n" by (simp only: of_int_less_iff)
  show ?thesis using a b by linarith
qed

lemma rne_char:
  assumes "\<bar>x - of_int n\<bar> < 1 / 2 \<or> (\<bar>x - of_int n\<bar> = 1 / 2 \<and> even n)"
  shows "rne x = n"
proof -
  define m where "m = \<lfloor>x\<rfloor>"
  have fl: "of_int m \<le> x" "x < of_int m + 1" unfolding m_def by linarith+
  have le: "\<bar>x - of_int n\<bar> \<le> 1 / 2" using assms by linarith
  from int_between [OF fl le] have nm: "n = m \<or> n = m + 1" .
  have r: "rne x = (if x - of_int m < 1 / 2 then m
                    else if 1 / 2 < x - of_int m then m + 1
                    else if even m then m else m + 1)"
    by (simp add: rne_def Let_def m_def)
  show ?thesis
  proof (cases "x - of_int m < 1 / 2")
    case True
    have "n \<noteq> m + 1"
    proof
      assume "n = m + 1"
      then have "\<bar>x - of_int n\<bar> = of_int m + 1 - x" using fl by simp
      then show False using True le assms \<open>n = m + 1\<close> by auto
    qed
    then show ?thesis using nm r True by simp
  next
    case False
    show ?thesis
    proof (cases "1 / 2 < x - of_int m")
      case True
      have "n \<noteq> m"
      proof
        assume "n = m"
        then have "\<bar>x - of_int n\<bar> = x - of_int m" using fl by simp
        then show False using True le by linarith
      qed
      then show ?thesis using nm r True False by simp
    next
      case F2: False
      have h: "x - of_int m = 1 / 2" using False F2 by linarith
      have "\<bar>x - of_int n\<bar> = 1 / 2" using nm h by auto
      then have "even n" using assms by simp
      then show ?thesis using nm r False F2 by auto
    qed
  qed
qed

lemma rne_self: "\<bar>x - of_int (rne x)\<bar> < 1 / 2 \<or> (\<bar>x - of_int (rne x)\<bar> = 1 / 2 \<and> even (rne x))"
proof -
  have fl: "of_int \<lfloor>x\<rfloor> \<le> x" "x < of_int \<lfloor>x\<rfloor> + 1" by linarith+
  then show ?thesis by (auto simp add: rne_def Let_def)
qed

lemma rne_neg: "rne (- x) = - rne x"
proof (rule rne_char)
  have e: "\<bar>- x - of_int (- rne x)\<bar> = \<bar>x - of_int (rne x)\<bar>" by simp
  show "\<bar>- x - of_int (- rne x)\<bar> < 1 / 2 \<or> (\<bar>- x - of_int (- rne x)\<bar> = 1 / 2 \<and> even (- rne x))"
    unfolding e using rne_self [of x] by simp
qed

lemma rne_mono: "x \<le> y \<Longrightarrow> rne x \<le> rne y"
proof (rule ccontr)
  assume a: "x \<le> y" "\<not> rne x \<le> rne y"
  then have "rne y + 1 \<le> rne x" by simp
  then have "(of_int (rne y + 1) :: rat) \<le> of_int (rne x)" by (simp only: of_int_le_iff)
  then have b: "(of_int (rne y) :: rat) + 1 \<le> of_int (rne x)" by simp
  have "x = y" using rne_near [of x] rne_near [of y] a(1) b by linarith
  then show False using a(2) by simp
qed

lemma round32_eq: "round32 x = of_int (rne (x / 2 powi (fexp x - 23))) * 2 powi (fexp x - 23)"
  by (simp add: round32_def fexp_def Let_def)

lemma round32_0: "round32 0 = 0"
  by (simp add: round32_eq rne_def)

lemma round32_neg: "round32 (- x) = - round32 x"
proof -
  have "fexp (- x) = fexp x" by (simp add: fexp_def)
  then show ?thesis by (simp add: round32_eq rne_neg)
qed

lemma round32_nonneg: "0 \<le> x \<Longrightarrow> 0 \<le> round32 x"
proof -
  assume "0 \<le> x"
  then have "0 \<le> x / 2 powi (fexp x - 23)" by simp
  then have "rne 0 \<le> rne (x / 2 powi (fexp x - 23))" by (rule rne_mono)
  then have "0 \<le> rne (x / 2 powi (fexp x - 23))" using rne_of_int [of 0] by simp
  then show ?thesis by (simp add: round32_eq)
qed

lemma fexp_upper: "0 < x \<Longrightarrow> x < 2 powi (fexp x + 1)"
proof -
  assume x: "0 < x"
  have "x < 2 powi (flog2 x + 1)" using flog2_bounds [OF x] by simp
  also have "\<dots> \<le> 2 powi (fexp x + 1)" using x by (intro pow2_le) (simp add: fexp_def)
  finally show ?thesis .
qed

lemma pow2_split: "(2::rat) powi (e + 1) = 2 ^ 24 * 2 powi (e - 23)"
proof -
  have "(2::rat) powi (e + 1) = 2 powi (24 + (e - 23))"
    by (rule arg_cong [of _ _ "power_int 2"]) simp
  also have "\<dots> = 2 powi 24 * 2 powi (e - 23)" by (rule power_int_add) simp
  finally show ?thesis by simp
qed

lemma pow2_split': "(2::rat) powi e = 2 ^ 23 * 2 powi (e - 23)"
proof -
  have "(2::rat) powi e = 2 powi (23 + (e - 23))"
    by (rule arg_cong [of _ _ "power_int 2"]) simp
  also have "\<dots> = 2 powi 23 * 2 powi (e - 23)" by (rule power_int_add) simp
  finally show ?thesis by simp
qed

lemma round32_upper: "0 < x \<Longrightarrow> round32 x \<le> 2 powi (fexp x + 1)"
proof -
  assume x: "0 < x"
  define q :: rat where "q = 2 powi (fexp x - 23)"
  have q: "0 < q" by (simp add: q_def)
  have "x < 2 ^ 24 * q" using fexp_upper [OF x] by (simp add: pow2_split q_def)
  then have "x / q \<le> of_int (2 ^ 24)" using q by (simp add: field_simps)
  then have "rne (x / q) \<le> rne (of_int (2 ^ 24))" by (rule rne_mono)
  then have "rne (x / q) \<le> 2 ^ 24" by (simp only: rne_of_int)
  then have "(of_int (rne (x / q)) :: rat) \<le> of_int (2 ^ 24)" by (simp only: of_int_le_iff)
  then have "of_int (rne (x / q)) * q \<le> 2 ^ 24 * q" using q by simp
  then show ?thesis by (simp add: round32_eq pow2_split q_def)
qed

lemma round32_lower:
  assumes x: "0 < x" and n: "- 126 \<le> flog2 x"
  shows "2 powi flog2 x \<le> round32 x"
proof -
  have e: "fexp x = flog2 x" using x n by (simp add: fexp_def)
  define q :: rat where "q = 2 powi (fexp x - 23)"
  have q: "0 < q" by (simp add: q_def)
  have "2 ^ 23 * q \<le> x" using flog2_bounds [OF x] e pow2_split' [of "fexp x"] by (simp add: q_def)
  then have "of_int (2 ^ 23) \<le> x / q" using q by (simp add: field_simps)
  then have "rne (of_int (2 ^ 23)) \<le> rne (x / q)" by (rule rne_mono)
  then have "2 ^ 23 \<le> rne (x / q)" by (simp only: rne_of_int)
  then have "(of_int (2 ^ 23) :: rat) \<le> of_int (rne (x / q))" by (simp only: of_int_le_iff)
  then have "2 ^ 23 * q \<le> of_int (rne (x / q)) * q" using q by simp
  then show ?thesis using pow2_split' [of "fexp x"] e by (simp add: round32_eq q_def)
qed

lemma round32_mono_pos:
  assumes x: "0 < x" and xy: "x \<le> y"
  shows "round32 x \<le> round32 y"
proof -
  have y: "0 < y" using x xy by simp
  have le: "fexp x \<le> fexp y" using flog2_mono [of x y] x xy y by (simp add: fexp_def)
  show ?thesis
  proof (cases "fexp x = fexp y")
    case True
    have "x / 2 powi (fexp y - 23) \<le> y / 2 powi (fexp y - 23)"
      using xy by (simp add: divide_right_mono)
    then have "rne (x / 2 powi (fexp y - 23)) \<le> rne (y / 2 powi (fexp y - 23))" by (rule rne_mono)
    then have "(of_int (rne (x / 2 powi (fexp y - 23))) :: rat) \<le> of_int (rne (y / 2 powi (fexp y - 23)))"
      by (simp only: of_int_le_iff)
    then show ?thesis by (simp add: round32_eq True)
  next
    case False
    then have lt: "fexp x < fexp y" using le by simp
    have "- 126 \<le> fexp x" by (simp add: fexp_def)
    then have fy: "fexp y = flog2 y" "- 126 \<le> flog2 y" using lt y by (auto simp add: fexp_def)
    have "round32 x \<le> 2 powi (fexp x + 1)" by (rule round32_upper [OF x])
    also have "\<dots> \<le> 2 powi flog2 y" using lt fy by (intro pow2_le) simp
    also have "\<dots> \<le> round32 y" by (rule round32_lower [OF y fy(2)])
    finally show ?thesis .
  qed
qed

lemma round32_mono: "x \<le> y \<Longrightarrow> round32 x \<le> round32 y"
proof -
  assume xy: "x \<le> y"
  consider "0 < x" | "x \<le> 0" "0 \<le> y" | "y < 0" by linarith
  then show ?thesis
  proof cases
    case 1
    then show ?thesis using xy by (rule round32_mono_pos)
  next
    case 2
    have "0 \<le> round32 (- x)" using 2 by (intro round32_nonneg) simp
    then have "round32 x \<le> 0" by (simp add: round32_neg)
    also have "0 \<le> round32 y" using 2 by (intro round32_nonneg)
    finally show ?thesis .
  next
    case 3
    have "round32 (- y) \<le> round32 (- x)" using 3 xy by (intro round32_mono_pos) simp_all
    then show ?thesis by (simp add: round32_neg)
  qed
qed

lemma flog2_less: "0 < x \<Longrightarrow> x < 2 powi e \<Longrightarrow> flog2 x < e"
proof (rule ccontr)
  assume a: "0 < x" "x < 2 powi e" "\<not> flog2 x < e"
  then have "(2::rat) powi e \<le> 2 powi flog2 x" by (intro pow2_le) simp
  then show False using flog2_bounds [OF a(1)] a(2) by linarith
qed

lemma round32_exact:
  assumes n: "\<bar>n\<bar> < 2 ^ 24" and k: "- 149 \<le> k"
  shows "round32 (of_int n * 2 powi k) = of_int n * 2 powi k"
proof (cases "n = 0")
  case True
  then show ?thesis by (simp add: round32_0)
next
  case False
  define x :: rat where "x = of_int n * 2 powi k"
  have ax: "\<bar>x\<bar> = of_int \<bar>n\<bar> * 2 powi k" by (simp add: x_def abs_mult)
  have "0 < \<bar>n\<bar>" using False by simp
  then have "(0::rat) < of_int \<bar>n\<bar>" by (simp only: of_int_0_less_iff)
  then have pos: "0 < \<bar>x\<bar>" unfolding ax by simp
  have "(of_int \<bar>n\<bar> :: rat) < of_int (2 ^ 24)" using n by (simp only: of_int_less_iff)
  then have "\<bar>x\<bar> < 2 ^ 24 * 2 powi k" unfolding ax by simp
  also have "\<dots> = 2 powi (k + 24)" using pow2_split [of "k + 23"] by (simp add: add.commute)
  finally have "flog2 \<bar>x\<bar> < k + 24" by (rule flog2_less [OF pos])
  then have le: "fexp x \<le> k + 23" using k by (simp add: fexp_def)
  define m where "m = nat (k + 23 - fexp x)"
  define q :: rat where "q = 2 powi (fexp x - 23)"
  have q: "0 < q" by (simp add: q_def)
  have "(2::rat) powi k = 2 powi (int m + (fexp x - 23))"
    by (rule arg_cong [of _ _ "power_int 2"]) (use le in \<open>simp add: m_def\<close>)
  also have "\<dots> = 2 powi int m * 2 powi (fexp x - 23)" by (rule power_int_add) simp
  finally have pk: "(2::rat) powi k = 2 ^ m * q" by (simp add: q_def)
  have "x / q = of_int n * 2 ^ m" using q by (simp add: x_def pk)
  also have "\<dots> = of_int (n * 2 ^ m)" by simp
  finally have "rne (x / q) = n * 2 ^ m" by (simp only: rne_of_int)
  then have "round32 x = of_int (n * 2 ^ m) * q" by (simp add: round32_eq q_def)
  also have "\<dots> = x" by (simp add: x_def pk)
  finally show ?thesis by (simp add: x_def)
qed

lemma round32_form:
  assumes "0 \<le> x"
  shows "\<exists>n. 0 \<le> n \<and> n \<le> 2 ^ 24 \<and> round32 x = of_int n * 2 powi (fexp x - 23)"
proof -
  define q :: rat where "q = 2 powi (fexp x - 23)"
  have q: "0 < q" by (simp add: q_def)
  have "0 \<le> x / q" using assms q by simp
  then have "rne 0 \<le> rne (x / q)" by (rule rne_mono)
  then have lo: "0 \<le> rne (x / q)" using rne_of_int [of 0] by simp
  have hi: "rne (x / q) \<le> 2 ^ 24"
  proof (cases "x = 0")
    case True
    then show ?thesis using rne_of_int [of 0] by simp
  next
    case False
    then have x: "0 < x" using assms by simp
    have "x < 2 ^ 24 * q" using fexp_upper [OF x] by (simp add: pow2_split q_def)
    then have "x / q \<le> of_int (2 ^ 24)" using q by (simp add: field_simps)
    then have "rne (x / q) \<le> rne (of_int (2 ^ 24))" by (rule rne_mono)
    then show ?thesis by (simp only: rne_of_int)
  qed
  have "round32 x = of_int (rne (x / q)) * q" by (simp add: round32_eq q_def)
  then show ?thesis using lo hi unfolding q_def by blast
qed

lemma fexp_ge: "- 126 \<le> fexp x"
  by (simp add: fexp_def)

lemma round32_idem:
  assumes "0 \<le> x"
  shows "round32 (round32 x) = round32 x"
proof -
  from round32_form [OF assms] obtain n where
    n: "0 \<le> n" "n \<le> 2 ^ 24" and r: "round32 x = of_int n * 2 powi (fexp x - 23)"
    by blast
  show ?thesis
  proof (cases "n = 2 ^ 24")
    case True
    have "round32 x = 2 ^ 24 * 2 powi (fexp x - 23)" using r True by simp
    also have "\<dots> = 2 ^ 23 * (2 powi (fexp x - 23) * 2)" by simp
    also have "\<dots> = 2 ^ 23 * 2 powi (fexp x - 23 + 1)" by (simp only: pow2_Suc)
    also have "\<dots> = of_int (2 ^ 23) * 2 powi (fexp x - 22)" by simp
    finally have e: "round32 x = of_int (2 ^ 23) * 2 powi (fexp x - 22)" .
    have "round32 (of_int (2 ^ 23) * 2 powi (fexp x - 22)) = of_int (2 ^ 23) * 2 powi (fexp x - 22)"
      using fexp_ge [of x] by (intro round32_exact) simp_all
    then show ?thesis by (simp only: e)
  next
    case False
    then have "\<bar>n\<bar> < 2 ^ 24" using n by simp
    moreover have "- 149 \<le> fexp x - 23" using fexp_ge [of x] by simp
    ultimately have "round32 (of_int n * 2 powi (fexp x - 23)) = of_int n * 2 powi (fexp x - 23)"
      by (rule round32_exact)
    then show ?thesis by (simp only: r)
  qed
qed

lemma round32_scale:
  assumes x: "0 < x" and a: "- 126 \<le> flog2 x" and b: "- 126 \<le> flog2 x + j"
  shows "round32 (x * 2 powi j) = round32 x * 2 powi j"
proof -
  have e1: "fexp x = flog2 x" using x a by (simp add: fexp_def)
  have "0 < x * 2 powi j" using x by simp
  then have "\<bar>x * 2 powi j\<bar> = x * 2 powi j" by simp
  then have e2: "fexp (x * 2 powi j) = flog2 x + j"
    using flog2_scale [OF x, of j] b by (simp add: fexp_def)
  have "(2::rat) powi (flog2 x + j - 23) = 2 powi ((flog2 x - 23) + j)"
    by (rule arg_cong [of _ _ "power_int 2"]) simp
  also have "\<dots> = 2 powi (flog2 x - 23) * 2 powi j" by (rule power_int_add) simp
  finally have q: "(2::rat) powi (flog2 x + j - 23) = 2 powi (flog2 x - 23) * 2 powi j" .
  have "x * 2 powi j / (2 powi (flog2 x - 23) * 2 powi j) = x / 2 powi (flog2 x - 23)" by simp
  then show ?thesis by (simp add: round32_eq e1 e2 q)
qed

lemma flog2_nonneg: "1 \<le> x \<Longrightarrow> 0 \<le> flog2 x"
proof -
  assume "1 \<le> x"
  moreover have "flog2 1 = 0" by (simp add: flog2.simps)
  ultimately show ?thesis using flog2_mono [of 1 x] by simp
qed

lemma round32_div_65536:
  assumes "x = 0 \<or> 1 \<le> x"
  shows "round32 (round32 x / 65536) = round32 (x / 65536)"
proof (cases "x = 0")
  case True
  then show ?thesis by (simp add: round32_0)
next
  case False
  then have x1: "1 \<le> x" using assms by simp
  then have x: "0 < x" by simp
  have p: "(2::rat) powi (- 16) = 1 / 65536" by (simp add: power_int_minus_divide)
  have fx: "0 \<le> flog2 x" by (rule flog2_nonneg [OF x1])
  have s1: "round32 (x * 2 powi (- 16)) = round32 x * 2 powi (- 16)"
    using fx by (intro round32_scale [OF x]) simp_all
  have "2 powi flog2 x \<le> round32 x" using fx by (intro round32_lower [OF x]) simp
  moreover have "(2::rat) powi 0 \<le> 2 powi flog2 x" using fx by (intro pow2_le)
  ultimately have a1: "1 \<le> round32 x" by simp
  then have a: "0 < round32 x" by simp
  have fa: "0 \<le> flog2 (round32 x)" by (rule flog2_nonneg [OF a1])
  have "round32 (round32 x * 2 powi (- 16)) = round32 (round32 x) * 2 powi (- 16)"
    using fa by (intro round32_scale [OF a]) simp_all
  also have "\<dots> = round32 x * 2 powi (- 16)" using x by (simp add: round32_idem)
  also have "\<dots> = round32 (x * 2 powi (- 16))" by (simp only: s1)
  finally show ?thesis by (simp add: p)
qed

lemma round32_exact_nat:
  fixes n :: nat
  assumes "n < 2 ^ 24" and "- 149 \<le> k"
  shows "round32 (of_nat n * 2 powi k) = of_nat n * 2 powi k"
proof -
  have "\<bar>int n\<bar> < 2 ^ 24" using assms(1) by simp
  then have "round32 (of_int (int n) * 2 powi k) = of_int (int n) * 2 powi k"
    using assms(2) by (rule round32_exact)
  then show ?thesis by simp
qed

lemma unat16_small: "unat (t :: 16 word) < 2 ^ 24"
proof -
  have "unat t < 2 ^ 16" using unsigned_less [of t] by simp
  then show ?thesis by simp
qed

lemma f32_of_u16_exact: "f32_of_u16 t = of_nat (unat t)"
  using round32_exact_nat [OF unat16_small, of 0 t] by (simp add: f32_of_u16_def)

lemma u16_div_exact: "round32 (of_nat (unat (t :: 16 word)) / 65536) = of_nat (unat t) / 65536"
proof -
  have p: "(2::rat) powi (- 16) = 1 / 65536" by (simp add: power_int_minus_divide)
  show ?thesis using round32_exact_nat [OF unat16_small, of "- 16" t] by (simp add: p)
qed

lemma lit_175_72: "f32_lit (17572 / 100) = 5757993 / 32768"
  unfolding f32_lit_def by code_simp

lemma lit_46_85: "f32_lit (4685 / 100) = 6140723 / 131072"
  unfolding f32_lit_def by code_simp

lemma lit_65536: "f32_lit 65536 = 65536"
  unfolding f32_lit_def by code_simp

lemma lit_125: "f32_lit 125 = 125"
  unfolding f32_lit_def by code_simp

lemma lit_6: "f32_lit 6 = 6"
  unfolding f32_lit_def by code_simp

section \<open>Decoding a reading\<close>

lemma raw16_cat: "raw16 (b0, b1, b2) = word_cat b0 (b1 AND 0xFC)"
  by (simp add: raw16_def Let_def word_cat_eq_push_bit_or)

lemma unat_cat: "unat (word_cat (a :: 8 word) (b :: 8 word) :: 16 word) = unat a * 256 + unat b"
proof -
  have a: "unat a < 256" using unsigned_less [of a] by simp
  have b: "unat b < 256" using unsigned_less [of b] by simp
  have "unat (word_cat a b :: 16 word) = (unat a mod 65536 * 256 mod 65536 + unat b mod 65536) mod 65536"
    by (simp add: word_cat_eq unat_word_ariths unsigned_push_bit_eq unsigned_ucast_eq
        push_bit_eq_mult take_bit_eq_mod)
  also have "\<dots> = unat a * 256 + unat b" using a b by simp
  finally show ?thesis .
qed

lemma and_fc: "unat ((b :: 8 word) AND 0xFC) \<le> 252"
proof -
  have "b AND 0xFC \<le> 0xFC" by (rule word_and_le1)
  then show ?thesis by (simp add: word_le_nat_alt)
qed

lemma raw16_le: "unat (raw16 buf) \<le> 65532"
proof -
  obtain b0 b1 b2 where buf: "buf = (b0, b1, b2)" by (cases buf)
  have "unat b0 < 256" using unsigned_less [of b0] by simp
  then show ?thesis using and_fc [of b1] by (simp add: buf raw16_cat unat_cat)
qed


lemma nat_scaled: "1 \<le> c \<Longrightarrow> (of_nat n :: rat) * c = 0 \<or> 1 \<le> of_nat n * c"
proof (cases n)
  case 0
  then show ?thesis by simp
next
  case (Suc m)
  assume c: "1 \<le> c"
  have "(1::rat) \<le> of_nat n" using Suc by simp
  then have "1 * 1 \<le> of_nat n * c" using c by (intro mult_mono) simp_all
  then show ?thesis by simp
qed

lemma temperature_of_raw_eq:
  "temperature_of_raw t =
     round32 (round32 (of_nat (unat t) * (5757993 / 32768) / 65536) - 6140723 / 131072)"
proof -
  have h: "round32 (round32 (of_nat (unat t) * (5757993 / 32768)) / 65536) =
        round32 (of_nat (unat t) * (5757993 / 32768) / 65536)"
    by (rule round32_div_65536, rule nat_scaled) simp
  show ?thesis
    unfolding temperature_of_raw_def Let_def f32_mul_def f32_div_def f32_sub_def
      f32_of_u16_exact lit_175_72 lit_46_85 lit_65536
    by (simp only: h)
qed

lemma humidity_of_raw_eq:
  "humidity_of_raw t = round32 (round32 (of_nat (unat t) * 125 / 65536) - 6)"
proof -
  have h: "round32 (round32 (of_nat (unat t) * 125) / 65536) =
        round32 (of_nat (unat t) * 125 / 65536)"
    by (rule round32_div_65536, rule nat_scaled) simp
  show ?thesis
    unfolding humidity_of_raw_def Let_def f32_mul_def f32_div_def f32_sub_def
      f32_of_u16_exact lit_125 lit_6 lit_65536
    by (simp only: h)
qed

lemma spec_temperature_eq:
  "spec_temperature t =
     round32 (round32 (of_nat (unat t) * (5757993 / 32768) / 65536) - 6140723 / 131072)"
proof -
  have h: "(of_nat (unat t) :: rat) / 65536 * (5757993 / 32768) =
        of_nat (unat t) * (5757993 / 32768) / 65536" by simp
  show ?thesis
    unfolding spec_temperature_def f32_mul_def f32_div_def f32_sub_def
      f32_of_u16_exact lit_175_72 lit_46_85 lit_65536 u16_div_exact
    by (simp only: h)
qed

lemma spec_humidity_eq:
  "spec_humidity t = round32 (round32 (of_nat (unat t) * 125 / 65536) - 6)"
proof -
  have h: "(of_nat (unat t) :: rat) / 65536 * 125 = of_nat (unat t) * 125 / 65536" by simp
  show ?thesis
    unfolding spec_humidity_def f32_mul_def f32_div_def f32_sub_def
      f32_of_u16_exact lit_125 lit_6 lit_65536 u16_div_exact
    by (simp only: h)
qed

lemma temperature_at_0: "temperature_of_raw 0 = - (6140723 / 131072)"
proof -
  have "round32 (round32 0 - 6140723 / 131072) = - (6140723 / 131072)" by code_simp
  then show ?thesis by (simp add: temperature_of_raw_eq)
qed

lemma temperature_at_FFFC: "temperature_of_raw 0xFFFC = 4222461 / 32768"
proof -
  have "round32 (round32 (65532 * (5757993 / 32768) / 65536) - 6140723 / 131072) = 4222461 / 32768"
    by code_simp
  then show ?thesis by (simp add: temperature_of_raw_eq)
qed

lemma humidity_at_0: "humidity_of_raw 0 = - 6"
proof -
  have "round32 (round32 0 - 6) = - 6" by code_simp
  then show ?thesis by (simp add: humidity_of_raw_eq)
qed

lemma humidity_at_FFFC: "humidity_of_raw 0xFFFC = 1949571 / 16384"
proof -
  have "round32 (round32 (65532 * 125 / 65536) - 6) = 1949571 / 16384" by code_simp
  then show ?thesis by (simp add: humidity_of_raw_eq)
qed

lemma temperature_mono: "unat s \<le> unat t \<Longrightarrow> temperature_of_raw s \<le> temperature_of_raw t"
proof -
  assume "unat s \<le> unat t"
  then have "(of_nat (unat s) :: rat) \<le> of_nat (unat t)" by (simp only: of_nat_le_iff)
  then have "(of_nat (unat s) :: rat) * (5757993 / 32768) / 65536 \<le>
             of_nat (unat t) * (5757993 / 32768) / 65536" by simp
  then have "round32 (of_nat (unat s) * (5757993 / 32768) / 65536) \<le>
             round32 (of_nat (unat t) * (5757993 / 32768) / 65536)" by (rule round32_mono)
  then have "round32 (of_nat (unat s) * (5757993 / 32768) / 65536) - 6140723 / 131072 \<le>
             round32 (of_nat (unat t) * (5757993 / 32768) / 65536) - 6140723 / 131072" by simp
  then show ?thesis unfolding temperature_of_raw_eq by (rule round32_mono)
qed

lemma humidity_mono: "unat s \<le> unat t \<Longrightarrow> humidity_of_raw s \<le> humidity_of_raw t"
proof -
  assume "unat s \<le> unat t"
  then have "(of_nat (unat s) :: rat) \<le> of_nat (unat t)" by (simp only: of_nat_le_iff)
  then have "(of_nat (unat s) :: rat) * 125 / 65536 \<le> of_nat (unat t) * 125 / 65536" by simp
  then have "round32 (of_nat (unat s) * 125 / 65536) \<le> round32 (of_nat (unat t) * 125 / 65536)"
    by (rule round32_mono)
  then have "round32 (of_nat (unat s) * 125 / 65536) - 6 \<le>
             round32 (of_nat (unat t) * 125 / 65536) - 6" by simp
  then show ?thesis unfolding humidity_of_raw_eq by (rule round32_mono)
qed

lemma decoded_range:
  "temperature_of_raw 0 \<le> temperature_of_raw (raw16 buf) \<and>
   temperature_of_raw (raw16 buf) \<le> temperature_of_raw 0xFFFC \<and>
   humidity_of_raw 0 \<le> humidity_of_raw (raw16 buf) \<and>
   humidity_of_raw (raw16 buf) \<le> humidity_of_raw 0xFFFC"
proof -
  have lo: "unat (0 :: 16 word) \<le> unat (raw16 buf)" by simp
  have hi: "unat (raw16 buf) \<le> unat (0xFFFC :: 16 word)" using raw16_le [of buf] by simp
  show ?thesis
    using temperature_mono [OF lo] temperature_mono [OF hi] humidity_mono [OF lo]
      humidity_mono [OF hi]
    by simp
qed

lemma round32_abs_le:
  assumes "\<bar>x\<bar> \<le> of_int n" and "n < 2 ^ 24"
  shows "\<bar>round32 x\<bar> \<le> of_int n"
proof -
  have "(0::rat) \<le> of_int n" using assms(1) by linarith
  then have n0: "0 \<le> n" by (simp only: of_int_0_le_iff)
  have a: "\<bar>n\<bar> < 2 ^ 24" using n0 assms(2) by simp
  have e: "round32 (of_int n) = of_int n" using round32_exact [OF a, of 0] by simp
  have "x \<le> of_int n" using assms(1) by linarith
  then have hi: "round32 x \<le> of_int n" using round32_mono [of x "of_int n"] e by simp
  have "- x \<le> of_int n" using assms(1) by linarith
  then have "round32 (- x) \<le> of_int n" using round32_mono [of "- x" "of_int n"] e by simp
  then have "- of_int n \<le> round32 x" by (simp add: round32_neg)
  then show ?thesis using hi by linarith
qed

lemma temperature_steps_small:
  "\<bar>f32_of_u16 t\<bar> \<le> 65535 \<and>
   \<bar>f32_mul (f32_of_u16 t) (f32_lit (17572 / 100))\<bar> \<le> 11515811 \<and>
   \<bar>f32_div (f32_mul (f32_of_u16 t) (f32_lit (17572 / 100))) (f32_lit 65536)\<bar> \<le> 176 \<and>
   \<bar>f32_sub (f32_div (f32_mul (f32_of_u16 t) (f32_lit (17572 / 100))) (f32_lit 65536))
      (f32_lit (4685 / 100))\<bar> \<le> 223"
proof -
  define x1 where "x1 = f32_of_u16 t"
  define x2 where "x2 = round32 (x1 * (5757993 / 32768))"
  define x3 where "x3 = round32 (x2 / 65536)"
  define x4 where "x4 = round32 (x3 - 6140723 / 131072)"
  have "unat t < 2 ^ 16" using unsigned_less [of t] by simp
  then have "unat t \<le> 65535" by simp
  then have "(of_nat (unat t) :: rat) \<le> of_nat 65535" by (simp only: of_nat_le_iff)
  then have "(of_nat (unat t) :: rat) \<le> 65535" by (simp only: of_nat_numeral)
  moreover have "(0::rat) \<le> of_nat (unat t)" by (rule of_nat_0_le_iff)
  ultimately have b1: "0 \<le> x1" "x1 \<le> 65535"
    unfolding x1_def f32_of_u16_exact by blast+
  have "\<bar>x1 * (5757993 / 32768)\<bar> \<le> of_int 11515811" using b1 by simp
  then have "\<bar>round32 (x1 * (5757993 / 32768))\<bar> \<le> of_int 11515811"
    by (rule round32_abs_le) simp
  then have b2: "\<bar>x2\<bar> \<le> 11515811" by (simp add: x2_def)
  then have "\<bar>x2 / 65536\<bar> \<le> of_int 176" by simp
  then have "\<bar>round32 (x2 / 65536)\<bar> \<le> of_int 176" by (rule round32_abs_le) simp
  then have b3: "\<bar>x3\<bar> \<le> 176" by (simp add: x3_def)
  then have "\<bar>x3 - 6140723 / 131072\<bar> \<le> of_int 223" by simp
  then have "\<bar>round32 (x3 - 6140723 / 131072)\<bar> \<le> of_int 223" by (rule round32_abs_le) simp
  then have b4: "\<bar>x4\<bar> \<le> 223" by (simp add: x4_def)
  show ?thesis
    unfolding f32_mul_def f32_div_def f32_sub_def lit_175_72 lit_46_85 lit_65536
    using b1 b2 b3 b4 unfolding x4_def x3_def x2_def x1_def by simp
qed

lemma humidity_steps_small:
  "\<bar>f32_of_u16 t\<bar> \<le> 65535 \<and>
   \<bar>f32_mul (f32_of_u16 t) (f32_lit 125)\<bar> \<le> 8191875 \<and>
   \<bar>f32_div (f32_mul (f32_of_u16 t) (f32_lit 125)) (f32_lit 65536)\<bar> \<le> 125 \<and>
   \<bar>f32_sub (f32_div (f32_mul (f32_of_u16 t) (f32_lit 125)) (f32_lit 65536)) (f32_lit 6)\<bar> \<le> 131"
proof -
  define x1 where "x1 = f32_of_u16 t"
  define x2 where "x2 = round32 (x1 * 125)"
  define x3 where "x3 = round32 (x2 / 65536)"
  define x4 where "x4 = round32 (x3 - 6)"
  have "unat t < 2 ^ 16" using unsigned_less [of t] by simp
  then have "unat t \<le> 65535" by simp
  then have "(of_nat (unat t) :: rat) \<le> of_nat 65535" by (simp only: of_nat_le_iff)
  then have "(of_nat (unat t) :: rat) \<le> 65535" by (simp only: of_nat_numeral)
  moreover have "(0::rat) \<le> of_nat (unat t)" by (rule of_nat_0_le_iff)
  ultimately have b1: "0 \<le> x1" "x1 \<le> 65535"
    unfolding x1_def f32_of_u16_exact by blast+
  have "\<bar>x1 * 125\<bar> \<le> of_int 8191875" using b1 by simp
  then have "\<bar>round32 (x1 * 125)\<bar> \<le> of_int 8191875" by (rule round32_abs_le) simp
  then have b2: "\<bar>x2\<bar> \<le> 8191875" by (simp add: x2_def)
  then have "\<bar>x2 / 65536\<bar> \<le> of_int 125" by simp
  then have "\<bar>round32 (x2 / 65536)\<bar> \<le> of_int 125" by (rule round32_abs_le) simp
  then have b3: "\<bar>x3\<bar> \<le> 125" by (simp add: x3_def)
  then have "\<bar>x3 - 6\<bar> \<le> of_int 131" by simp
  then have "\<bar>round32 (x3 - 6)\<bar> \<le> of_int 131" by (rule round32_abs_le) simp
  then have b4: "\<bar>x4\<bar> \<le> 131" by (simp add: x4_def)
  show ?thesis
    unfolding f32_mul_def f32_div_def f32_sub_def lit_125 lit_6 lit_65536
    using b1 b2 b3 b4 unfolding x4_def x3_def x2_def x1_def by simp
qed

lemma readTemperature_ok:
  assumes "i2c_dev d = Some p"
    and "\<not> write_fails B p (HTU21DF_READTEMP K) w"
    and "dev_read3 B (trace w @ [Dev_write p [HTU21DF_READTEMP K], Delay 50, Dev_read p 3]) = Some buf"
  shows "returned (readTemperature K B d w) = Some (Val (temperature_of_raw (raw16 buf)))"
  using assms by (simp add: readTemperature_def write_fails_def Let_def returned_def)

lemma readHumidity_ok:
  assumes "i2c_dev d = Some p"
    and "\<not> write_fails B p (HTU21DF_READHUM K) w"
    and "dev_read3 B (trace w @ [Dev_write p [HTU21DF_READHUM K], Delay 50, Dev_read p 3]) = Some buf"
  shows "returned (readHumidity K B d w) = Some (Val (humidity_of_raw (raw16 buf)))"
  using assms by (simp add: readHumidity_def write_fails_def Let_def returned_def)

text \<open>
  C1, amended. For every 16-bit raw value \<open>r\<close> the temperature the driver computes,
  \<open>r * 175.72f / 65536.0f - 46.85f\<close>, is the value of
  \<open>(r / 65536.0) * 175.72 - 46.85\<close> computed in single precision, and it is what
  a \<open>readTemperature\<close> that succeeds returns for the word of its answer. For
  \<open>r = 0\<close> it is \<open>-46.85f\<close>, within \<open>0.00001\<close> of \<open>-46.85\<close>; for
  \<open>r = 0xFFFC\<close> it is within \<open>0.001\<close> of \<open>128.86\<close>.
\<close>

theorem temperature_decode:
  "temperature_of_raw r = spec_temperature r \<and>
   temperature_of_raw 0 = - f32_lit (4685 / 100) \<and>
   \<bar>temperature_of_raw 0 - (- (4685 / 100))\<bar> < 1 / 100000 \<and>
   \<bar>temperature_of_raw 0xFFFC - 12886 / 100\<bar> < 1 / 1000 \<and>
   (i2c_dev d = Some p \<and> \<not> write_fails B p (HTU21DF_READTEMP K) w \<and>
    dev_read3 B (trace w @ [Dev_write p [HTU21DF_READTEMP K], Delay 50, Dev_read p 3]) = Some buf
    \<longrightarrow> returned (readTemperature K B d w) = Some (Val (spec_temperature (raw16 buf))))"
proof -
  have eq: "\<And>r. temperature_of_raw r = spec_temperature r"
    by (simp only: temperature_of_raw_eq spec_temperature_eq)
  have c2: "temperature_of_raw 0 = - f32_lit (4685 / 100)"
    unfolding lit_46_85 by (rule temperature_at_0)
  have c3: "\<bar>temperature_of_raw 0 - (- (4685 / 100))\<bar> < 1 / 100000"
    unfolding temperature_at_0 by simp
  have c4: "\<bar>temperature_of_raw 0xFFFC - 12886 / 100\<bar> < 1 / 1000"
    unfolding temperature_at_FFFC by simp
  have c5: "i2c_dev d = Some p \<and> \<not> write_fails B p (HTU21DF_READTEMP K) w \<and>
    dev_read3 B (trace w @ [Dev_write p [HTU21DF_READTEMP K], Delay 50, Dev_read p 3]) = Some buf
    \<longrightarrow> returned (readTemperature K B d w) = Some (Val (spec_temperature (raw16 buf)))"
    using readTemperature_ok [of d p B K w buf] eq [of "raw16 buf"] by simp
  show ?thesis using eq [of r] c2 c3 c4 c5 by blast
qed

theorem temperature_decode_witness:
  "i2c_dev driver1 = Some 0 \<and>
   \<not> write_fails (const_bus True True (Some (0xFF, 0xFF, 0)) 2) 0 (HTU21DF_READTEMP hdr0) world0 \<and>
   dev_read3 (const_bus True True (Some (0xFF, 0xFF, 0)) 2)
     (trace world0 @ [Dev_write 0 [HTU21DF_READTEMP hdr0], Delay 50, Dev_read 0 3]) =
     Some (0xFF, 0xFF, 0) \<and>
   returned (readTemperature hdr0 (const_bus True True (Some (0xFF, 0xFF, 0)) 2) driver1 world0) =
     Some (Val (spec_temperature 0xFFFC))"
  using temperature_decode [of 0 driver1 0 "const_bus True True (Some (0xFF, 0xFF, 0)) 2" hdr0 world0
      "(0xFF, 0xFF, 0)"]
  by (simp add: driver1_def write_fails_def const_bus_def raw16_def)

text \<open>
  C1 as stated fails at \<open>r = 0xFFFC\<close>: the decoded temperature is
  \<open>4222461 / 32768 = 128.859283447265625\<close>, more than \<open>0.1\<close> away from \<open>128.73\<close>.
\<close>

theorem temperature_at_FFFC_not_128_73:
  "\<not> \<bar>temperature_of_raw 0xFFFC - 12873 / 100\<bar> \<le> 1 / 10"
  unfolding temperature_at_FFFC by simp

text \<open>
  C2. For every 16-bit raw value \<open>r\<close> the humidity the driver computes,
  \<open>r * 125.0f / 65536.0f - 6.0f\<close>, is the value of \<open>(r / 65536.0) * 125.0 - 6.0\<close>
  computed in single precision, and it is what a \<open>readHumidity\<close> that succeeds
  returns for the word of its answer. For \<open>r = 0\<close> it is \<open>-6\<close>; for \<open>r = 0xFFFC\<close>
  it is within \<open>0.005\<close> of \<open>118.99\<close>.
\<close>

theorem humidity_decode:
  "humidity_of_raw r = spec_humidity r \<and>
   humidity_of_raw 0 = - 6 \<and>
   \<bar>humidity_of_raw 0xFFFC - 11899 / 100\<bar> < 5 / 1000 \<and>
   (i2c_dev d = Some p \<and> \<not> write_fails B p (HTU21DF_READHUM K) w \<and>
    dev_read3 B (trace w @ [Dev_write p [HTU21DF_READHUM K], Delay 50, Dev_read p 3]) = Some buf
    \<longrightarrow> returned (readHumidity K B d w) = Some (Val (spec_humidity (raw16 buf))))"
proof -
  have eq: "\<And>r. humidity_of_raw r = spec_humidity r"
    by (simp only: humidity_of_raw_eq spec_humidity_eq)
  have c3: "\<bar>humidity_of_raw 0xFFFC - 11899 / 100\<bar> < 5 / 1000"
    unfolding humidity_at_FFFC by simp
  have c4: "i2c_dev d = Some p \<and> \<not> write_fails B p (HTU21DF_READHUM K) w \<and>
    dev_read3 B (trace w @ [Dev_write p [HTU21DF_READHUM K], Delay 50, Dev_read p 3]) = Some buf
    \<longrightarrow> returned (readHumidity K B d w) = Some (Val (spec_humidity (raw16 buf)))"
    using readHumidity_ok [of d p B K w buf] eq [of "raw16 buf"] by simp
  show ?thesis using eq [of r] humidity_at_0 c3 c4 by blast
qed

theorem humidity_decode_witness:
  "i2c_dev driver1 = Some 0 \<and>
   \<not> write_fails (const_bus True True (Some (0xFF, 0xFF, 0)) 2) 0 (HTU21DF_READHUM hdr0) world0 \<and>
   dev_read3 (const_bus True True (Some (0xFF, 0xFF, 0)) 2)
     (trace world0 @ [Dev_write 0 [HTU21DF_READHUM hdr0], Delay 50, Dev_read 0 3]) =
     Some (0xFF, 0xFF, 0) \<and>
   returned (readHumidity hdr0 (const_bus True True (Some (0xFF, 0xFF, 0)) 2) driver1 world0) =
     Some (Val (spec_humidity 0xFFFC))"
  using humidity_decode [of 0 driver1 0 "const_bus True True (Some (0xFF, 0xFF, 0)) 2" hdr0 world0
      "(0xFF, 0xFF, 0)"]
  by (simp add: driver1_def write_fails_def const_bus_def raw16_def)

lemma readTemperature_Val:
  "readTemperature K B d w = Inr (Val v, d1, w1) \<Longrightarrow> \<exists>buf. v = temperature_of_raw (raw16 buf)"
  by (auto simp add: readTemperature_def Let_def split: option.splits if_splits)

lemma readHumidity_Val:
  "readHumidity K B d w = Inr (Val h, d2, w2) \<Longrightarrow> \<exists>buf. h = humidity_of_raw (raw16 buf)"
  by (auto simp add: readHumidity_def Let_def split: option.splits if_splits)

text \<open>
  C10, amended. Whatever three bytes the transport answers, a \<open>readTemperature\<close>
  that succeeds returns a value from \<open>-46.85\<close> up to the single-precision value of
  \<open>(0xFFFC / 65536) * 175.72 - 46.85\<close>, which is
  \<open>4222461 / 32768 = 128.859283447265625\<close>, and a \<open>readHumidity\<close> that succeeds a
  value from \<open>-6\<close> up to the single-precision value of \<open>(0xFFFC / 65536) * 125 - 6\<close>,
  which is \<open>1949571 / 16384 = 118.99237060546875\<close>.
\<close>

theorem successful_read_range:
  "(readTemperature K B d w = Inr (Val v, d1, w1) \<longrightarrow>
      - (4685 / 100) \<le> v \<and> v \<le> spec_temperature 0xFFFC) \<and>
   (readHumidity K B d w = Inr (Val h, d2, w2) \<longrightarrow>
      - 6 \<le> h \<and> h \<le> spec_humidity 0xFFFC) \<and>
   spec_temperature 0xFFFC = 4222461 / 32768 \<and>
   spec_humidity 0xFFFC = 1949571 / 16384"
proof -
  have st: "spec_temperature 0xFFFC = 4222461 / 32768"
    using temperature_at_FFFC by (simp only: temperature_of_raw_eq spec_temperature_eq)
  have sh: "spec_humidity 0xFFFC = 1949571 / 16384"
    using humidity_at_FFFC by (simp only: humidity_of_raw_eq spec_humidity_eq)
  have t: "- (4685 / 100) \<le> v \<and> v \<le> spec_temperature 0xFFFC"
    if "readTemperature K B d w = Inr (Val v, d1, w1)"
  proof -
    from readTemperature_Val [OF that] obtain buf where v: "v = temperature_of_raw (raw16 buf)"
      by blast
    have "temperature_of_raw 0 \<le> v" "v \<le> temperature_of_raw 0xFFFC"
      using decoded_range [of buf] v by simp_all
    then show ?thesis unfolding st temperature_at_0 temperature_at_FFFC by simp
  qed
  have u: "- 6 \<le> h \<and> h \<le> spec_humidity 0xFFFC"
    if "readHumidity K B d w = Inr (Val h, d2, w2)"
  proof -
    from readHumidity_Val [OF that] obtain buf where h: "h = humidity_of_raw (raw16 buf)"
      by blast
    have "humidity_of_raw 0 \<le> h" "h \<le> humidity_of_raw 0xFFFC"
      using decoded_range [of buf] h by simp_all
    then show ?thesis unfolding sh humidity_at_0 humidity_at_FFFC by simp
  qed
  show ?thesis using t u st sh by blast
qed

theorem successful_read_range_witness:
  "readTemperature hdr0 (const_bus True True (Some (0xFF, 0xFF, 0)) 2) driver1 world0 =
     Inr (Val (temperature_of_raw 0xFFFC), driver1\<lparr>last_temp := Val (temperature_of_raw 0xFFFC)\<rparr>,
          \<lparr>trace = [Dev_write 0 [0xE3], Delay 50, Dev_read 0 3], next_dev = 0\<rparr>) \<and>
   - (4685 / 100) \<le> temperature_of_raw 0xFFFC \<and>
   temperature_of_raw 0xFFFC \<le> spec_temperature 0xFFFC \<and>
   readHumidity hdr0 (const_bus True True (Some (0xFF, 0xFF, 0)) 2) driver1 world0 =
     Inr (Val (humidity_of_raw 0xFFFC), driver1\<lparr>last_humidity := Val (humidity_of_raw 0xFFFC)\<rparr>,
          \<lparr>trace = [Dev_write 0 [0xE5], Delay 50, Dev_read 0 3], next_dev = 0\<rparr>) \<and>
   - 6 \<le> humidity_of_raw 0xFFFC \<and>
   humidity_of_raw 0xFFFC \<le> spec_humidity 0xFFFC"
  using successful_read_range [of hdr0 "const_bus True True (Some (0xFF, 0xFF, 0)) 2" driver1 world0
      "temperature_of_raw 0xFFFC" "driver1\<lparr>last_temp := Val (temperature_of_raw 0xFFFC)\<rparr>"
      "\<lparr>trace = [Dev_write 0 [0xE3], Delay 50, Dev_read 0 3], next_dev = 0\<rparr>"
      "humidity_of_raw 0xFFFC" "driver1\<lparr>last_humidity := Val (humidity_of_raw 0xFFFC)\<rparr>"
      "\<lparr>trace = [Dev_write 0 [0xE5], Delay 50, Dev_read 0 3], next_dev = 0\<rparr>"]
  by (simp add: readTemperature_def readHumidity_def Let_def driver1_def hdr0_def world0_def
      const_bus_def emit_def raw16_def)

text \<open>
  C10 as stated fails for the answer \<open>0xFF, 0xFF, 0x00\<close>: \<open>readTemperature\<close> returns
  \<open>4222461 / 32768\<close>, which is above \<open>128.73\<close> and also above the exact value of
  \<open>(0xFFFC / 65536) * 175.72 - 46.85\<close>.
\<close>

theorem read_temperature_exceeds_128_73:
  "returned (readTemperature hdr0 (const_bus True True (Some (0xFF, 0xFF, 0)) 2) driver1 world0) =
     Some (Val (4222461 / 32768)) \<and>
   \<not> (4222461 / 32768 \<le> (12873 / 100 :: rat)) \<and>
   \<not> (4222461 / 32768 \<le> (65532 / 65536) * (17572 / 100) - (4685 / 100 :: rat))"
proof -
  have "returned (readTemperature hdr0 (const_bus True True (Some (0xFF, 0xFF, 0)) 2) driver1 world0) =
     Some (Val (temperature_of_raw 0xFFFC))"
    by (simp add: readTemperature_def Let_def driver1_def hdr0_def world0_def
      const_bus_def emit_def raw16_def returned_def)
  then show ?thesis unfolding temperature_at_FFFC by simp
qed

end
